theory Spec2Isabelle
  imports Complex_Main "HOL-Library.AList" "HOL-Library.Sublist"
begin

section \<open>Military surge detection: data model\<close>

text \<open>
  JavaScript numbers are modelled as follows: counters and list lengths as \<open>nat\<close>,
  millisecond timestamps (\<open>Date.now()\<close>, \<open>Date\<close> objects) as \<open>int\<close>, and every other
  number (coordinates, distances, baselines, surge multiples, confidence) as \<open>real\<close>, that
  is, double arithmetic is read as exact arithmetic.  A \<open>Map\<close> is an association list in
  insertion order: \<open>map_of\<close> is \<open>Map.get\<close>, \<open>AList.update\<close> is \<open>Map.set\<close> (an existing key
  keeps its position, a new key goes to the end), \<open>AList.delete\<close> is \<open>Map.delete\<close>.
  All clock reads of one call of the analysis return the same instant \<open>now\<close>, which is a
  parameter.  The base catalogue \<open>MILITARY_BASES_EXPANDED\<close> is configuration outside the
  module and is a parameter \<open>bases\<close>.  Only the module's own state is modelled: the alerts
  and histories handed out to callers are values, and an alert updated in place is the
  updated entry of the alert map.
\<close>

record MilitaryTheater =
  id_t :: string
  name_t :: string
  baseIds :: "string list"
  centerLat :: real
  centerLon :: real

record MilitaryBase =
  id_b :: string
  name_b :: string
  lat_b :: real
  lon_b :: real

record MilitaryFlight =
  id_f :: string
  callsign :: string
  aircraftType :: string
  aircraftModel :: "string option"
  lat :: real
  lon :: real

datatype SurgeType = AirliftSurge | FighterSurge | ReconnaissanceSurge

record SurgeAlert =
  id_a :: string
  theater :: MilitaryTheater
  type_a :: SurgeType
  currentCount :: nat
  baselineCount :: int
  surgeMultiple :: real
  aircraftTypes :: "(string \<times> nat) list"
  nearbyBases :: "string list"
  firstDetected :: int
  lastUpdated :: int

record TheaterActivity =
  theaterId :: string
  timestamp :: int
  transportCount :: nat
  fighterCount :: nat
  reconCount :: nat
  totalMilitary :: nat
  flightIds :: "string list"

record NearbyBase =
  baseId :: string
  baseName :: string
  distance :: real

record Baseline =
  transport :: real
  fighter :: real
  recon :: real

record SurgeState =
  activityHistory :: "(string \<times> TheaterActivity list) list"
  activeSurges :: "(string \<times> SurgeAlert) list"
  lastCleanup :: int

definition THEATERS :: "MilitaryTheater list" where
  "THEATERS =
    [\<lparr>id_t = ''middle-east'', name_t = ''Middle East / Persian Gulf'',
      baseIds = [''al_udeid'', ''ali_al_salem_air_base'', ''camp_arifjan'', ''camp_buehring'',
                 ''kuwait_naval_base'', ''naval_support_activity_bahrain'', ''isa_air_base'',
                 ''masirah_aira_base'', ''rafo_thumrait'', ''al_dhafra_air_base'',
                 ''port_of_jebel_ali'', ''fujairah_naval_base'', ''prince_sultan_air_base'',
                 ''ain_assad_air_base'', ''camp_victory'', ''naval_support_facility_diego_garcia''],
      centerLat = 27, centerLon = 50\<rparr>,
     \<lparr>id_t = ''europe-east'', name_t = ''Eastern Europe'',
      baseIds = [''camp_bondsteel'', ''aitos_logistics_center'', ''bezmer'', ''graf_ignatievo''],
      centerLat = 45, centerLon = 25\<rparr>,
     \<lparr>id_t = ''europe-west'', name_t = ''Western Europe'',
      baseIds = [''ramstein'', ''spangdahlem'', ''usag_stuttgart'', ''raf_lakenheath'',
                 ''raf_mildenhall'', ''aviano''],
      centerLat = 50, centerLon = 8\<rparr>,
     \<lparr>id_t = ''pacific-west'', name_t = ''Western Pacific'',
      baseIds = [''kadena_air_base'', ''camp_fuji'', ''fleet_activities_okinawa'', ''yokota'',
                 ''misawsa'', ''osan_air_base'', ''kunsan_ab'', ''us_army_garrison_humphreys'',
                 ''andersen_air_force_base''],
      centerLat = 30, centerLon = 130\<rparr>,
     \<lparr>id_t = ''africa-horn'', name_t = ''Horn of Africa'',
      baseIds = [''camp_lemonnier'', ''contingency_location_garoua'', ''niger_air_base_201''],
      centerLat = 10, centerLon = 40\<rparr>]"

definition SURGE_THRESHOLD :: real where "SURGE_THRESHOLD = 2"
definition BASELINE_WINDOW_HOURS :: int where "BASELINE_WINDOW_HOURS = 48"
definition BASELINE_MIN_SAMPLES :: nat where "BASELINE_MIN_SAMPLES = 6"
definition TRANSPORT_CALLSIGN_PATTERNS :: "string list" where
  "TRANSPORT_CALLSIGN_PATTERNS = [''RCH'', ''REACH'', ''MOOSE'', ''HERKY'', ''EVAC'', ''DUSTOFF'']"
definition PROXIMITY_RADIUS_KM :: real where "PROXIMITY_RADIUS_KM = 150"
definition CLEANUP_INTERVAL :: int where "CLEANUP_INTERVAL = 60 * 60 * 1000"
definition MAX_HISTORY_HOURS :: int where "MAX_HISTORY_HOURS = 72"

text \<open>The module's state at load time: both maps empty, \<open>lastCleanup = Date.now()\<close>.\<close>

definition initState :: "int \<Rightarrow> SurgeState" where
  "initState t0 = \<lparr>activityHistory = [], activeSurges = [], lastCleanup = t0\<rparr>"

section \<open>Geodesy and theater resolution\<close>

definition getTheaterForBase :: "string \<Rightarrow> MilitaryTheater option" where
  "getTheaterForBase b = find (\<lambda>th. b \<in> set (baseIds th)) THEATERS"

text \<open>\<open>Math.atan2 y x\<close>, the angle of the point \<open>(x, y)\<close> in \<open>(-pi, pi]\<close>.\<close>

definition atan2 :: "real \<Rightarrow> real \<Rightarrow> real" where
  "atan2 y x =
    (if 0 < x then arctan (y / x)
     else if x < 0 then (if 0 \<le> y then arctan (y / x) + pi else arctan (y / x) - pi)
     else if 0 < y then pi / 2
     else if y < 0 then - (pi / 2)
     else 0)"

definition distanceKm :: "real \<Rightarrow> real \<Rightarrow> real \<Rightarrow> real \<Rightarrow> real" where
  "distanceKm lat1 lon1 lat2 lon2 =
    (let R = 6371;
         dLat = (lat2 - lat1) * pi / 180;
         dLon = (lon2 - lon1) * pi / 180;
         a = (sin (dLat / 2))\<^sup>2 +
             cos (lat1 * pi / 180) * cos (lat2 * pi / 180) * (sin (dLon / 2))\<^sup>2
     in R * 2 * atan2 (sqrt a) (sqrt (1 - a)))"

text \<open>
  The bases within the proximity radius, ascending by distance.  \<open>Array.prototype.sort\<close> is
  stable, as is \<open>sort_key\<close> (insertion sort): bases at equal distance keep catalogue order.
\<close>

definition findNearbyBases :: "MilitaryBase list \<Rightarrow> real \<Rightarrow> real \<Rightarrow> NearbyBase list" where
  "findNearbyBases bases la lo =
    sort_key distance
      (List.map_filter
        (\<lambda>base. let dist = distanceKm la lo (lat_b base) (lon_b base)
                 in if dist \<le> PROXIMITY_RADIUS_KM
                    then Some \<lparr>baseId = id_b base, baseName = name_b base, distance = dist\<rparr>
                    else None)
        bases)"

text \<open>\<open>String.prototype.toUpperCase\<close> on the ASCII letters.\<close>

definition toUpperCase_char :: "char \<Rightarrow> char" where
  "toUpperCase_char c =
    (let n = (of_char c :: nat) in if 97 \<le> n \<and> n \<le> 122 then char_of (n - 32) else c)"

definition toUpperCase :: "string \<Rightarrow> string" where
  "toUpperCase s = map toUpperCase_char s"

definition isTransportFlight :: "MilitaryFlight \<Rightarrow> bool" where
  "isTransportFlight flight =
    (if aircraftType flight = ''transport'' \<or> aircraftType flight = ''tanker'' then True
     else let cs = toUpperCase (callsign flight)
          in list_ex (\<lambda>p. prefix p cs) TRANSPORT_CALLSIGN_PATTERNS)"

datatype Classification = Transport | Fighter | Recon | Other

definition classifyFlight :: "MilitaryFlight \<Rightarrow> Classification" where
  "classifyFlight flight =
    (if isTransportFlight flight then Transport
     else if aircraftType flight = ''fighter'' then Fighter
     else if aircraftType flight = ''reconnaissance'' \<or> aircraftType flight = ''awacs'' then Recon
     else Other)"

text \<open>The first loop of \<open>getTheaterForFlight\<close>: the theater of the first nearby base that has one.\<close>

fun firstBaseTheater :: "NearbyBase list \<Rightarrow> MilitaryTheater option" where
  "firstBaseTheater [] = None"
| "firstBaseTheater (nb # rest) =
    (case getTheaterForBase (baseId nb) of
       Some th \<Rightarrow> Some th
     | None \<Rightarrow> firstBaseTheater rest)"

definition getTheaterForFlight :: "MilitaryBase list \<Rightarrow> MilitaryFlight \<Rightarrow> MilitaryTheater option" where
  "getTheaterForFlight bases flight =
    (case firstBaseTheater (findNearbyBases bases (lat flight) (lon flight)) of
       Some th \<Rightarrow> Some th
     | None \<Rightarrow>
         find (\<lambda>th. distanceKm (lat flight) (lon flight) (centerLat th) (centerLon th) < 1500)
           THEATERS)"

section \<open>Baseline and cleanup\<close>

text \<open>\<open>activityHistory.get(theaterId) || []\<close>\<close>

definition getHistory :: "(string \<times> TheaterActivity list) list \<Rightarrow> string \<Rightarrow> TheaterActivity list" where
  "getHistory m k = (case map_of m k of Some h \<Rightarrow> h | None \<Rightarrow> [])"

definition calculateBaseline :: "int \<Rightarrow> SurgeState \<Rightarrow> string \<Rightarrow> Baseline" where
  "calculateBaseline now s k =
    (let history = getHistory (activityHistory s) k;
         cutoff = now - BASELINE_WINDOW_HOURS * 60 * 60 * 1000;
         relevant = filter (\<lambda>h. timestamp h \<ge> cutoff) history
     in if length relevant < BASELINE_MIN_SAMPLES
        then \<lparr>transport = 3, fighter = 2, recon = 1\<rparr>
        else
          let avgTransport = real (foldl (\<lambda>sum h. sum + transportCount h) 0 relevant)
                               / real (length relevant);
              avgFighter = real (foldl (\<lambda>sum h. sum + fighterCount h) 0 relevant)
                               / real (length relevant);
              avgRecon = real (foldl (\<lambda>sum h. sum + reconCount h) 0 relevant)
                               / real (length relevant)
          in \<lparr>transport = max 2 avgTransport,
              fighter = max 1 avgFighter,
              recon = max 1 avgRecon\<rparr>)"

text \<open>The bodies of the two loops of \<open>cleanupOldHistory\<close>.\<close>

definition pruneHistoryEntry :: "int \<Rightarrow> string \<times> TheaterActivity list
    \<Rightarrow> (string \<times> TheaterActivity list) list \<Rightarrow> (string \<times> TheaterActivity list) list" where
  "pruneHistoryEntry cutoff e m =
    (let (k, history) = e;
         filtered = filter (\<lambda>h. timestamp h \<ge> cutoff) history
     in if length filtered = 0 then AList.delete k m else AList.update k filtered m)"

definition evictSurgeEntry :: "int \<Rightarrow> string \<times> SurgeAlert
    \<Rightarrow> (string \<times> SurgeAlert) list \<Rightarrow> (string \<times> SurgeAlert) list" where
  "evictSurgeEntry now e m =
    (let (surgeId, surge) = e;
         age = now - lastUpdated surge
     in if age > 2 * 60 * 60 * 1000 then AList.delete surgeId m else m)"

definition cleanupOldHistory :: "int \<Rightarrow> SurgeState \<Rightarrow> SurgeState" where
  "cleanupOldHistory now s =
    (if now - lastCleanup s < CLEANUP_INTERVAL then s
     else
       let cutoff = now - MAX_HISTORY_HOURS * 60 * 60 * 1000;
           hist = fold (pruneHistoryEntry cutoff) (activityHistory s) (activityHistory s);
           surges = fold (evictSurgeEntry now) (activeSurges s) (activeSurges s)
       in \<lparr>activityHistory = hist, activeSurges = surges, lastCleanup = now\<rparr>)"

section \<open>The analysis cycle\<close>

text \<open>Grouping the flights by resolved theater; a flight with no theater is skipped.\<close>

definition groupFlights :: "MilitaryBase list \<Rightarrow> MilitaryFlight list
    \<Rightarrow> (string \<times> MilitaryFlight list) list" where
  "groupFlights bases flights =
    fold (\<lambda>flight m.
            case getTheaterForFlight bases flight of
              None \<Rightarrow> m
            | Some th \<Rightarrow>
                let existing = (case map_of m (id_t th) of Some l \<Rightarrow> l | None \<Rightarrow> [])
                in AList.update (id_t th) (existing @ [flight]) m)
         flights []"

text \<open>The counters and collections of the inner loop over one theater's flights.\<close>

record Tally =
  transportCount_c :: nat
  fighterCount_c :: nat
  reconCount_c :: nat
  aircraftTypes_c :: "(string \<times> nat) list"
  nearbyBasesSet :: "string list"

definition set_add :: "string \<Rightarrow> string list \<Rightarrow> string list" where
  "set_add x xs = (if x \<in> set xs then xs else xs @ [x])"

definition tallyFlight :: "MilitaryBase list \<Rightarrow> MilitaryFlight \<Rightarrow> Tally \<Rightarrow> Tally" where
  "tallyFlight bases flight c =
    (let classification = classifyFlight flight;
         c1 = (if classification = Transport then c\<lparr>transportCount_c := transportCount_c c + 1\<rparr>
               else if classification = Fighter then c\<lparr>fighterCount_c := fighterCount_c c + 1\<rparr>
               else if classification = Recon then c\<lparr>reconCount_c := reconCount_c c + 1\<rparr>
               else c);
         typeKey = (case aircraftModel flight of
                      Some m \<Rightarrow> if m \<noteq> [] then m
                                else if aircraftType flight \<noteq> [] then aircraftType flight
                                else ''unknown''
                    | None \<Rightarrow> if aircraftType flight \<noteq> [] then aircraftType flight
                              else ''unknown'');
         c2 = c1\<lparr>aircraftTypes_c :=
                   AList.update typeKey
                     ((case map_of (aircraftTypes_c c1) typeKey of Some n \<Rightarrow> n | None \<Rightarrow> 0) + 1)
                     (aircraftTypes_c c1)\<rparr>;
         nearby = findNearbyBases bases (lat flight) (lon flight)
     in c2\<lparr>nearbyBasesSet := fold (\<lambda>nb acc. set_add (baseName nb) acc) (take 3 nearby)
                                 (nearbyBasesSet c2)\<rparr>)"

definition tallyFlights :: "MilitaryBase list \<Rightarrow> MilitaryFlight list \<Rightarrow> Tally" where
  "tallyFlights bases fl =
    fold (tallyFlight bases) fl
      \<lparr>transportCount_c = 0, fighterCount_c = 0, reconCount_c = 0,
       aircraftTypes_c = [], nearbyBasesSet = []\<rparr>"

text \<open>The snapshot of one theater, and its append to the capped history.\<close>

definition mkActivity :: "int \<Rightarrow> string \<Rightarrow> MilitaryFlight list \<Rightarrow> Tally \<Rightarrow> TheaterActivity" where
  "mkActivity now k fl c =
    \<lparr>theaterId = k, timestamp = now,
     transportCount = transportCount_c c, fighterCount = fighterCount_c c,
     reconCount = reconCount_c c, totalMilitary = length fl, flightIds = map id_f fl\<rparr>"

definition pushHistory :: "TheaterActivity \<Rightarrow> TheaterActivity list \<Rightarrow> TheaterActivity list" where
  "pushHistory activity history =
    (let h = history @ [activity] in if length h > 200 then tl h else h)"

definition recordActivity :: "string \<Rightarrow> TheaterActivity \<Rightarrow> SurgeState \<Rightarrow> SurgeState" where
  "recordActivity k activity s =
    s\<lparr>activityHistory :=
        AList.update k (pushHistory activity (getHistory (activityHistory s) k))
          (activityHistory s)\<rparr>"

text \<open>\<open>Math.round\<close>: the nearest integer, halves towards plus infinity.\<close>

definition Math_round :: "real \<Rightarrow> int" where
  "Math_round x = \<lfloor>x + 1 / 2\<rfloor>"

text \<open>The alert keys \<open>`airlift-${theaterId}`\<close> and \<open>`fighter-${theaterId}`\<close>.\<close>

definition airliftId :: "string \<Rightarrow> string" where
  "airliftId k = ''airlift-'' @ k"

definition fighterId :: "string \<Rightarrow> string" where
  "fighterId k = ''fighter-'' @ k"

text \<open>The airlift block of the theater loop.\<close>

definition detectAirlift :: "int \<Rightarrow> MilitaryTheater \<Rightarrow> string \<Rightarrow> Tally \<Rightarrow> Baseline
    \<Rightarrow> SurgeState \<times> SurgeAlert list \<Rightarrow> SurgeState \<times> SurgeAlert list" where
  "detectAirlift now th k c baseline sn =
    (let (s, newAlerts) = sn in
     if real (transportCount_c c) \<ge> transport baseline * SURGE_THRESHOLD \<and> transportCount_c c \<ge> 5
     then
       let surgeId = airliftId k;
           surgeMult = real (transportCount_c c) / transport baseline
       in case map_of (activeSurges s) surgeId of
            Some existing \<Rightarrow>
              (s\<lparr>activeSurges :=
                   AList.update surgeId
                     (existing\<lparr>currentCount := transportCount_c c,
                               surgeMultiple := surgeMult,
                               aircraftTypes := aircraftTypes_c c,
                               nearbyBases := nearbyBasesSet c,
                               lastUpdated := now\<rparr>)
                     (activeSurges s)\<rparr>,
               newAlerts)
          | None \<Rightarrow>
              let alert = \<lparr>id_a = surgeId, theater = th, type_a = AirliftSurge,
                           currentCount = transportCount_c c,
                           baselineCount = Math_round (transport baseline),
                           surgeMultiple = surgeMult,
                           aircraftTypes = aircraftTypes_c c,
                           nearbyBases = nearbyBasesSet c,
                           firstDetected = now, lastUpdated = now\<rparr>
              in (s\<lparr>activeSurges := AList.update surgeId alert (activeSurges s)\<rparr>,
                  newAlerts @ [alert])
     else (s, newAlerts))"

text \<open>The fighter block of the theater loop.\<close>

definition detectFighter :: "int \<Rightarrow> MilitaryTheater \<Rightarrow> string \<Rightarrow> Tally \<Rightarrow> Baseline
    \<Rightarrow> SurgeState \<times> SurgeAlert list \<Rightarrow> SurgeState \<times> SurgeAlert list" where
  "detectFighter now th k c baseline sn =
    (let (s, newAlerts) = sn in
     if real (fighterCount_c c) \<ge> fighter baseline * SURGE_THRESHOLD \<and> fighterCount_c c \<ge> 4
     then
       let surgeId = fighterId k;
           surgeMult = real (fighterCount_c c) / fighter baseline
       in if map_of (activeSurges s) surgeId = None
          then
            let alert = \<lparr>id_a = surgeId, theater = th, type_a = FighterSurge,
                         currentCount = fighterCount_c c,
                         baselineCount = Math_round (fighter baseline),
                         surgeMultiple = surgeMult,
                         aircraftTypes = aircraftTypes_c c,
                         nearbyBases = nearbyBasesSet c,
                         firstDetected = now, lastUpdated = now\<rparr>
            in (s\<lparr>activeSurges := AList.update surgeId alert (activeSurges s)\<rparr>,
                newAlerts @ [alert])
          else (s, newAlerts)
     else (s, newAlerts))"

text \<open>One iteration of the loop over \<open>theaterFlights\<close>.\<close>

definition processTheater :: "int \<Rightarrow> MilitaryBase list \<Rightarrow> string \<times> MilitaryFlight list
    \<Rightarrow> SurgeState \<times> SurgeAlert list \<Rightarrow> SurgeState \<times> SurgeAlert list" where
  "processTheater now bases g sn =
    (let (k, theaterFlightList) = g; (s, newAlerts) = sn in
     case find (\<lambda>t. id_t t = k) THEATERS of
       None \<Rightarrow> (s, newAlerts)
     | Some th \<Rightarrow>
         let c = tallyFlights bases theaterFlightList;
             activity = mkActivity now k theaterFlightList c;
             s1 = recordActivity k activity s;
             baseline = calculateBaseline now s1 k
         in detectFighter now th k c baseline
              (detectAirlift now th k c baseline (s1, newAlerts)))"

text \<open>\<open>analyzeFlightsForSurge\<close> returns the new alerts; the model also returns the new state.\<close>

definition analyzeFlightsForSurge :: "int \<Rightarrow> MilitaryBase list \<Rightarrow> MilitaryFlight list
    \<Rightarrow> SurgeState \<Rightarrow> SurgeAlert list \<times> SurgeState" where
  "analyzeFlightsForSurge now bases flights s =
    (let s0 = cleanupOldHistory now s;
         theaterFlights = groupFlights bases flights;
         (s', newAlerts) = fold (processTheater now bases) theaterFlights (s0, [])
     in (newAlerts, s'))"

definition getActiveSurges :: "SurgeState \<Rightarrow> SurgeAlert list" where
  "getActiveSurges s = map snd (activeSurges s)"

definition getTheaterActivity :: "SurgeState \<Rightarrow> string \<Rightarrow> TheaterActivity list" where
  "getTheaterActivity s k = getHistory (activityHistory s) k"

section \<open>Signal formatting\<close>

datatype Severity = critical | high | medium | low

text \<open>
  The record returned by \<open>surgeAlertToSignal\<close>, without the fields that are formatted text
  (\<open>id\<close>, \<open>title\<close>, \<open>description\<close>) and the \<open>metadata\<close> copy of the alert.
\<close>

record SurgeSignal =
  type_s :: string
  source :: string
  severity :: Severity
  confidence :: real
  category :: string
  timestamp_s :: int
  location_lat :: real
  location_lon :: real
  location_name :: string

definition surgeAlertToSignal :: "SurgeAlert \<Rightarrow> SurgeSignal" where
  "surgeAlertToSignal surge =
    (let sev = (if surgeMultiple surge \<ge> 4 then critical
                else if surgeMultiple surge \<ge> 3 then high else medium);
         conf = min 0.95 (0.6 + (surgeMultiple surge - 2) * 0.1)
     in \<lparr>type_s = ''military_surge'', source = ''Military Flight Tracking'',
         severity = sev, confidence = conf, category = ''military'',
         timestamp_s = firstDetected surge,
         location_lat = centerLat (theater surge),
         location_lon = centerLon (theater surge),
         location_name = name_t (theater surge)\<rparr>)"

section \<open>Notions for stating the properties of the analysis\<close>

text \<open>The part of the state that belongs to one theater: its history and its two alerts.\<close>

definition theaterView :: "string \<Rightarrow> SurgeState
    \<Rightarrow> TheaterActivity list option \<times> SurgeAlert option \<times> SurgeAlert option" where
  "theaterView k s =
    (map_of (activityHistory s) k,
     map_of (activeSurges s) (airliftId k),
     map_of (activeSurges s) (fighterId k))"

text \<open>The alerts of a list that carry one of the two keys of a theater.\<close>

definition alertsOf :: "string \<Rightarrow> SurgeAlert list \<Rightarrow> SurgeAlert list" where
  "alertsOf k as = filter (\<lambda>a. id_a a = airliftId k \<or> id_a a = fighterId k) as"

text \<open>
  The states the module can be in: the state at load time, and every state an analysis call
  leaves behind, for any clock reading, base catalogue and batch of flights.
\<close>

inductive reachable :: "SurgeState \<Rightarrow> bool" where
  init: "reachable (initState t0)"
| step: "reachable s \<Longrightarrow> reachable (snd (analyzeFlightsForSurge now bases flights s))"

text \<open>
  An entry of the alert map is well keyed when its key is the alert's id and the id is the
  key of the alert's type and theater.
\<close>

definition alert_key_ok :: "string \<times> SurgeAlert \<Rightarrow> bool" where
  "alert_key_ok e =
    (fst e = id_a (snd e) \<and>
     (type_a (snd e) = AirliftSurge \<and> id_a (snd e) = airliftId (id_t (theater (snd e))) \<or>
      type_a (snd e) = FighterSurge \<and> id_a (snd e) = fighterId (id_t (theater (snd e)))))"

definition alerts_inv :: "SurgeState \<Rightarrow> bool" where
  "alerts_inv s = (distinct (map fst (activeSurges s)) \<and> list_all alert_key_ok (activeSurges s))"

definition history_inv :: "SurgeState \<Rightarrow> bool" where
  "history_inv s =
    (distinct (map fst (activityHistory s)) \<and>
     list_all (\<lambda>e. length (snd e) \<le> 200) (activityHistory s))"

section \<open>The specification's vocabulary and example data\<close>

text \<open>The arithmetic mean of a list of counts, as the specification words the baseline.\<close>

definition mean :: "nat list \<Rightarrow> real" where
  "mean xs = real (sum_list xs) / real (length xs)"

text \<open>A transport and a fighter at a given position.\<close>

definition ex_flight :: "real \<Rightarrow> real \<Rightarrow> MilitaryFlight" where
  "ex_flight la lo = \<lparr>id_f = ''ae01ce'', callsign = ''RCH401'', aircraftType = ''transport'',
     aircraftModel = Some ''C17'', lat = la, lon = lo\<rparr>"

text \<open>A catalogue in which bases of two theaters lie within 150 km of one position.\<close>

definition ex_bases_overlap :: "MilitaryBase list" where
  "ex_bases_overlap =
    [\<lparr>id_b = ''al_udeid'', name_b = ''Al Udeid Air Base'', lat_b = 1, lon_b = 0\<rparr>,
     \<lparr>id_b = ''ramstein'', name_b = ''Ramstein Air Base'', lat_b = 1 / 2, lon_b = 0\<rparr>]"

text \<open>A catalogue with one base, of the first theater.\<close>

definition ex_bases_one :: "MilitaryBase list" where
  "ex_bases_one = [\<lparr>id_b = ''al_udeid'', name_b = ''Al Udeid Air Base'', lat_b = 25, lon_b = 51\<rparr>]"

definition ex_fighter :: "real \<Rightarrow> real \<Rightarrow> MilitaryFlight" where
  "ex_fighter la lo = \<lparr>id_f = ''ae5f12'', callsign = ''VIPER11'', aircraftType = ''fighter'',
     aircraftModel = Some ''F16'', lat = la, lon = lo\<rparr>"

text \<open>Six transports and four fighters at the center of the first theater.\<close>

definition ex_transports :: "MilitaryFlight list" where
  "ex_transports = [ex_flight 27 50, ex_flight 27 50, ex_flight 27 50,
                    ex_flight 27 50, ex_flight 27 50, ex_flight 27 50]"

definition ex_fighters :: "MilitaryFlight list" where
  "ex_fighters = [ex_fighter 27 50, ex_fighter 27 50, ex_fighter 27 50, ex_fighter 27 50]"

text \<open>A snapshot taken at time \<open>t\<close> with \<open>n\<close> transports, and an alert under a given key.\<close>

definition ex_activity :: "int \<Rightarrow> nat \<Rightarrow> TheaterActivity" where
  "ex_activity t n = \<lparr>theaterId = ''middle-east'', timestamp = t, transportCount = n,
     fighterCount = 0, reconCount = 0, totalMilitary = n, flightIds = []\<rparr>"

definition ex_alert :: "string \<Rightarrow> SurgeType \<Rightarrow> int \<Rightarrow> SurgeAlert" where
  "ex_alert key ty t = \<lparr>id_a = key, theater = THEATERS ! 0, type_a = ty, currentCount = 6,
     baselineCount = 3, surgeMultiple = 2, aircraftTypes = [(''C17'', 6)], nearbyBases = [],
     firstDetected = t, lastUpdated = t\<rparr>"

text \<open>
  A state with history entries and alerts of different ages, one with a fighter alert, and
  one with an airlift alert created at cold start and six later snapshots of one transport.
\<close>

definition ex_state :: SurgeState where
  "ex_state =
    \<lparr>activityHistory =
       [(''middle-east'', [ex_activity 0 1, ex_activity 300000000 1]),
        (''europe-east'', [ex_activity 0 1])],
     activeSurges =
       [(airliftId ''middle-east'', ex_alert (airliftId ''middle-east'') AirliftSurge 0),
        (fighterId ''middle-east'', ex_alert (fighterId ''middle-east'') FighterSurge 299000000)],
     lastCleanup = 0\<rparr>"

definition ex_state_fighter :: SurgeState where
  "ex_state_fighter =
    \<lparr>activityHistory = [],
     activeSurges = [(fighterId ''middle-east'', ex_alert (fighterId ''middle-east'') FighterSurge 500)],
     lastCleanup = 0\<rparr>"

definition ex_state_airlift :: SurgeState where
  "ex_state_airlift =
    \<lparr>activityHistory =
       [(''middle-east'', [ex_activity 900 1, ex_activity 900 1, ex_activity 900 1,
                           ex_activity 900 1, ex_activity 900 1, ex_activity 900 1])],
     activeSurges = [(airliftId ''middle-east'', ex_alert (airliftId ''middle-east'') AirliftSurge 500)],
     lastCleanup = 0\<rparr>"

section \<open>Facts about the great-circle distance\<close>

lemma distanceKm_same: "distanceKm la lo la lo = 0"
  by (simp add: distanceKm_def atan2_def)

lemma arctan_le_self: "0 \<le> x \<Longrightarrow> arctan x \<le> x"
proof -
  assume x: "0 \<le> x"
  have "(\<lambda>t. t - arctan t) 0 \<le> (\<lambda>t. t - arctan t) x"
  proof (rule DERIV_nonneg_imp_nondecreasing [OF x])
    fix t :: real
    assume "0 \<le> t" "t \<le> x"
    have d: "((\<lambda>t. t - arctan t) has_real_derivative (1 - inverse (1 + t\<^sup>2))) (at t)"
      by (intro derivative_intros DERIV_arctan)
    have "1 \<le> 1 + t\<^sup>2" by simp
    then have "inverse (1 + t\<^sup>2) \<le> 1" by (simp add: inverse_le_1_iff)
    then have "0 \<le> 1 - inverse (1 + t\<^sup>2)" by simp
    with d show "\<exists>y. ((\<lambda>t. t - arctan t) has_real_derivative y) (at t) \<and> 0 \<le> y" by blast
  qed
  then show ?thesis by simp
qed

lemma pi_le_16_5: "pi \<le> 16 / 5"
proof -
  have a: "arctan (1 / 5) \<le> 1 / 5" by (rule arctan_le_self) simp
  have b: "0 \<le> arctan (1 / 239)" by simp
  have "pi / 4 = 4 * arctan (1 / 5) - arctan (1 / 239)" by (rule machin)
  with a b show ?thesis by linarith
qed

lemma atan2_sin_cos:
  assumes "0 \<le> x" "x \<le> pi / 2"
  shows "atan2 (sqrt ((sin x)\<^sup>2)) (sqrt (1 - (sin x)\<^sup>2)) = x"
proof (cases "x = pi / 2")
  case True
  have "sin x = 1" by (simp only: True sin_pi_half)
  then have "atan2 (sqrt ((sin x)\<^sup>2)) (sqrt (1 - (sin x)\<^sup>2)) = pi / 2"
    by (simp add: atan2_def)
  with True show ?thesis by simp
next
  case False
  with assms have lt: "x < pi / 2" by simp
  have s: "0 \<le> sin x" using assms by (intro sin_ge_zero) (auto intro: order_trans)
  have c: "0 < cos x" using assms lt by (intro cos_gt_zero_pi) auto
  have e: "1 - (sin x)\<^sup>2 = (cos x)\<^sup>2" by (simp add: cos_squared_eq)
  have "atan2 (sqrt ((sin x)\<^sup>2)) (sqrt (1 - (sin x)\<^sup>2)) = arctan (sin x / cos x)"
    unfolding e using s c by (simp add: atan2_def)
  also have "\<dots> = arctan (tan x)" by (simp add: tan_def)
  also have "\<dots> = x" using assms lt by (intro arctan_tan) auto
  finally show ?thesis .
qed

lemma distanceKm_meridian:
  assumes "\<bar>lat2 - lat1\<bar> \<le> 180"
  shows "distanceKm lat1 lo lat2 lo = 6371 * \<bar>lat2 - lat1\<bar> * pi / 180"
proof -
  define x where "x = \<bar>lat2 - lat1\<bar> * pi / 360"
  have x0: "0 \<le> x" by (simp add: x_def)
  have "\<bar>lat2 - lat1\<bar> * pi \<le> 180 * pi" using assms by (intro mult_right_mono) auto
  then have x1: "x \<le> pi / 2" by (simp add: x_def)
  have e: "(sin ((lat2 - lat1) * pi / 180 / 2))\<^sup>2 = (sin x)\<^sup>2"
  proof (cases "lat1 \<le> lat2")
    case True then show ?thesis by (simp add: x_def)
  next
    case False
    then have "\<bar>lat2 - lat1\<bar> = - (lat2 - lat1)" by simp
    then have "x = - ((lat2 - lat1) * pi / 360)" by (simp only: x_def minus_mult_left minus_divide_left)
    moreover have "(lat2 - lat1) * pi / 180 / 2 = (lat2 - lat1) * pi / 360" by simp
    ultimately have "(lat2 - lat1) * pi / 180 / 2 = - x" by simp
    then show ?thesis by (simp only: sin_minus power2_minus)
  qed
  have "distanceKm lat1 lo lat2 lo = 6371 * 2 * atan2 (sqrt ((sin x)\<^sup>2)) (sqrt (1 - (sin x)\<^sup>2))"
    unfolding distanceKm_def Let_def e by simp
  also have "\<dots> = 6371 * 2 * x" by (simp only: atan2_sin_cos [OF x0 x1])
  finally show ?thesis by (simp add: x_def)
qed

lemma atan2_lower:
  assumes x: "0 \<le> x" "x \<le> pi / 2" and a: "(sin x)\<^sup>2 \<le> a"
  shows "x \<le> atan2 (sqrt a) (sqrt (1 - a))"
proof -
  have a0: "0 \<le> a" using a by (meson order_trans zero_le_power2)
  consider "a < 1" | "a = 1" | "1 < a" by linarith
  then show ?thesis
  proof cases
    case 1
    then have s1: "(sin x)\<^sup>2 < 1" using a by simp
    have "x \<noteq> pi / 2"
    proof
      assume "x = pi / 2"
      then have "sin x = 1" by (simp only: sin_pi_half)
      with s1 show False by simp
    qed
    with x have lt: "x < pi / 2" by simp
    have s: "0 \<le> sin x" using x by (intro sin_ge_zero) (auto intro: order_trans)
    have c: "0 < cos x" using x lt by (intro cos_gt_zero_pi) auto
    have q: "0 < sqrt (1 - a)" using 1 by simp
    have n: "sin x \<le> sqrt a" using a s by (metis real_sqrt_abs abs_of_nonneg real_sqrt_le_mono)
    have "1 - a \<le> (cos x)\<^sup>2" using a by (simp add: cos_squared_eq)
    then have "sqrt (1 - a) \<le> \<bar>cos x\<bar>" by (metis real_sqrt_abs real_sqrt_le_mono)
    then have d: "sqrt (1 - a) \<le> cos x" using c by simp
    have "tan x = sin x / cos x" by (simp add: tan_def)
    also have "\<dots> \<le> sqrt a / sqrt (1 - a)"
      by (rule frac_le) (use n d q s a0 in auto)
    finally have "arctan (tan x) \<le> arctan (sqrt a / sqrt (1 - a))" by (simp add: arctan_le_iff)
    moreover have "arctan (tan x) = x" using x lt by (intro arctan_tan) auto
    ultimately show ?thesis using q by (simp add: atan2_def)
  next
    case 2
    then show ?thesis using x by (simp add: atan2_def)
  next
    case 3
    then have q: "sqrt (1 - a) < 0" by simp
    have y: "0 \<le> sqrt a" using a0 by simp
    have "- (pi / 2) < arctan (sqrt a / sqrt (1 - a))" by (rule arctan_lbound)
    then show ?thesis using q y x by (simp add: atan2_def)
  qed
qed

lemma distanceKm_lower:
  assumes "\<bar>lat1\<bar> \<le> 90" "\<bar>lat2\<bar> \<le> 90"
  shows "6371 * \<bar>lat2 - lat1\<bar> * pi / 180 \<le> distanceKm lat1 lon1 lat2 lon2"
proof -
  define x where "x = \<bar>lat2 - lat1\<bar> * pi / 360"
  have x0: "0 \<le> x" by (simp add: x_def)
  have "\<bar>lat2 - lat1\<bar> \<le> 180" using assms by linarith
  then have "\<bar>lat2 - lat1\<bar> * pi \<le> 180 * pi" by (intro mult_right_mono) auto
  then have x1: "x \<le> pi / 2" by (simp add: x_def)
  have e: "(sin ((lat2 - lat1) * pi / 180 / 2))\<^sup>2 = (sin x)\<^sup>2"
  proof (cases "lat1 \<le> lat2")
    case True then show ?thesis by (simp add: x_def)
  next
    case False
    then have "\<bar>lat2 - lat1\<bar> = - (lat2 - lat1)" by simp
    then have "x = - ((lat2 - lat1) * pi / 360)" by (simp only: x_def minus_mult_left minus_divide_left)
    moreover have "(lat2 - lat1) * pi / 180 / 2 = (lat2 - lat1) * pi / 360" by simp
    ultimately have "(lat2 - lat1) * pi / 180 / 2 = - x" by simp
    then show ?thesis by (simp only: sin_minus power2_minus)
  qed
  have cosnn: "0 \<le> cos (l * pi / 180)" if "\<bar>l\<bar> \<le> 90" for l :: real
  proof (rule cos_ge_zero)
    have "\<bar>l\<bar> * pi \<le> 90 * pi" using that by (intro mult_right_mono) auto
    then have "\<bar>l * pi / 180\<bar> \<le> pi / 2" by (simp add: abs_mult)
    then show "- (pi / 2) \<le> l * pi / 180" "l * pi / 180 \<le> pi / 2" by linarith+
  qed
  define a where "a = (sin x)\<^sup>2 +
      cos (lat1 * pi / 180) * cos (lat2 * pi / 180) * (sin ((lon2 - lon1) * pi / 180 / 2))\<^sup>2"
  have "0 \<le> cos (lat1 * pi / 180) * cos (lat2 * pi / 180) * (sin ((lon2 - lon1) * pi / 180 / 2))\<^sup>2"
    using cosnn [OF assms(1)] cosnn [OF assms(2)] by simp
  then have "(sin x)\<^sup>2 \<le> a" by (simp add: a_def)
  then have "x \<le> atan2 (sqrt a) (sqrt (1 - a))" by (rule atan2_lower [OF x0 x1])
  moreover have "distanceKm lat1 lon1 lat2 lon2 = 6371 * 2 * atan2 (sqrt a) (sqrt (1 - a))"
    unfolding distanceKm_def Let_def e a_def by simp
  ultimately show ?thesis by (simp add: x_def mult.commute)
qed

lemma distanceKm_upper:
  assumes u: "u = ((lat2 - lat1) * pi / 360)\<^sup>2 + ((lon2 - lon1) * pi / 360)\<^sup>2" and u1: "u < 1"
  shows "distanceKm lat1 lon1 lat2 lon2 \<le> 12742 * sqrt (u / (1 - u))"
proof -
  define a where "a = (sin ((lat2 - lat1) * pi / 180 / 2))\<^sup>2 +
      cos (lat1 * pi / 180) * cos (lat2 * pi / 180) * (sin ((lon2 - lon1) * pi / 180 / 2))\<^sup>2"
  have sq: "(sin t)\<^sup>2 \<le> t\<^sup>2" for t :: real
    using abs_sin_x_le_abs_x [of t] by (metis abs_le_square_iff)
  have "\<bar>cos (lat1 * pi / 180) * cos (lat2 * pi / 180)\<bar> \<le> 1 * 1"
    unfolding abs_mult by (intro mult_mono) auto
  then have cc: "cos (lat1 * pi / 180) * cos (lat2 * pi / 180) \<le> 1" by simp
  have "cos (lat1 * pi / 180) * cos (lat2 * pi / 180) * (sin ((lon2 - lon1) * pi / 180 / 2))\<^sup>2
        \<le> 1 * (sin ((lon2 - lon1) * pi / 180 / 2))\<^sup>2"
    by (intro mult_right_mono cc) simp
  also have "\<dots> \<le> ((lon2 - lon1) * pi / 180 / 2)\<^sup>2" using sq by simp
  finally have t2: "cos (lat1 * pi / 180) * cos (lat2 * pi / 180) * (sin ((lon2 - lon1) * pi / 180 / 2))\<^sup>2
        \<le> ((lon2 - lon1) * pi / 360)\<^sup>2" by simp
  have t1: "(sin ((lat2 - lat1) * pi / 180 / 2))\<^sup>2 \<le> ((lat2 - lat1) * pi / 360)\<^sup>2"
    using sq [of "(lat2 - lat1) * pi / 180 / 2"] by simp
  have au: "a \<le> u" unfolding a_def u using t1 t2 by linarith
  then have a1: "a < 1" using u1 by simp
  have u0: "0 \<le> u" by (simp add: u)
  have "a * (1 - u) \<le> u * (1 - a)" using au by (simp add: algebra_simps)
  then have "a / (1 - a) \<le> u / (1 - u)" using a1 u1 by (simp add: field_simps)
  then have "sqrt (a / (1 - a)) \<le> sqrt (u / (1 - u))" by simp
  moreover have "arctan (sqrt (a / (1 - a))) \<le> arctan (sqrt (u / (1 - u)))"
    using calculation by (simp add: arctan_le_iff)
  moreover have "arctan (sqrt (u / (1 - u))) \<le> sqrt (u / (1 - u))"
    using u0 u1 by (intro arctan_le_self) simp
  moreover have "atan2 (sqrt a) (sqrt (1 - a)) = arctan (sqrt (a / (1 - a)))"
    using a1 by (simp add: atan2_def real_sqrt_divide)
  moreover have "distanceKm lat1 lon1 lat2 lon2 = 6371 * 2 * atan2 (sqrt a) (sqrt (1 - a))"
    unfolding distanceKm_def Let_def a_def by simp
  ultimately show ?thesis by simp
qed

lemma dist_15_50_ME: "distanceKm 15 50 27 50 = 6371 * pi / 15"
  using distanceKm_meridian [of 27 15 50] by simp

lemma dist_15_50_ME_lt: "distanceKm 15 50 27 50 < 1500"
  using pi_le_16_5 by (simp add: dist_15_50_ME)

lemma dist_15_50_AH: "distanceKm 15 50 10 40 < distanceKm 15 50 27 50"
proof -
  define u where "u = ((10 - 15) * pi / 360)\<^sup>2 + ((40 - 50) * pi / 360)\<^sup>2"
  have ue: "u = pi\<^sup>2 * (125 / 129600)" by (simp add: u_def power2_eq_square field_simps)
  have "pi\<^sup>2 < 4\<^sup>2" using pi_less_4 by (intro power_strict_mono) auto
  then have p16: "pi\<^sup>2 < 16" by simp
  then have u1: "u < 19 / 144" unfolding ue by simp
  then have u1': "u < 1" by simp
  have u0: "0 \<le> u" by (simp add: u_def)
  have "distanceKm 15 50 10 40 \<le> 12742 * sqrt (u / (1 - u))"
    by (rule distanceKm_upper [OF u_def u1'])
  moreover have "sqrt (u / (1 - u)) < pi / 30"
  proof -
    have "900 * u = pi\<^sup>2 * (125 / 144)" by (simp add: ue)
    also have "\<dots> < pi\<^sup>2 * (1 - u)" using u1 by (intro mult_strict_left_mono) auto
    finally have "u / (1 - u) < pi\<^sup>2 / 900" using u1' by (simp add: field_simps)
    then have "sqrt (u / (1 - u)) < sqrt (pi\<^sup>2 / 900)" by simp
    also have "sqrt (pi\<^sup>2 / 900) = pi / 30"
      by (simp add: real_sqrt_divide)
    finally show ?thesis .
  qed
  ultimately show ?thesis by (simp add: dist_15_50_ME)
qed

section \<open>Theater resolution\<close>

lemma set_findNearbyBases:
  "set (findNearbyBases bases la lo) =
    (\<lambda>b. \<lparr>baseId = id_b b, baseName = name_b b, distance = distanceKm la lo (lat_b b) (lon_b b)\<rparr>)
      ` {b \<in> set bases. distanceKm la lo (lat_b b) (lon_b b) \<le> 150}"
  by (auto simp add: findNearbyBases_def List.map_filter_def PROXIMITY_RADIUS_KM_def Let_def)

lemma sorted_findNearbyBases: "sorted (map distance (findNearbyBases bases la lo))"
  by (simp add: findNearbyBases_def sorted_sort_key)

lemma firstBaseTheater_None:
  "firstBaseTheater xs = None \<longleftrightarrow> (\<forall>nb\<in>set xs. getTheaterForBase (baseId nb) = None)"
  by (induction xs) (auto split: option.splits)

lemma firstBaseTheater_Some:
  assumes "sorted (map distance xs)" "firstBaseTheater xs = Some t"
  shows "\<exists>nb\<in>set xs. getTheaterForBase (baseId nb) = Some t \<and>
           (\<forall>nb'\<in>set xs. getTheaterForBase (baseId nb') \<noteq> None \<longrightarrow> distance nb \<le> distance nb')"
  using assms
proof (induction xs)
  case Nil
  then show ?case by simp
next
  case (Cons x xs)
  show ?case
  proof (cases "getTheaterForBase (baseId x)")
    case None
    with Cons.prems have "firstBaseTheater xs = Some t" "sorted (map distance xs)" by auto
    from Cons.IH [OF this(2) this(1)] None show ?thesis by auto
  next
    case (Some t')
    with Cons.prems have "t' = t" by simp
    with Some Cons.prems(1) show ?thesis by auto
  qed
qed

lemma find_disjoint:
  "distinct (concat (map baseIds ts)) \<Longrightarrow> th \<in> set ts \<Longrightarrow> b \<in> set (baseIds th)
     \<Longrightarrow> find (\<lambda>t. b \<in> set (baseIds t)) ts = Some th"
  by (induction ts) auto

lemma THEATERS_bases_distinct: "distinct (concat (map baseIds THEATERS))"
  by (simp add: THEATERS_def)

lemma getTheaterForBase_owner:
  "th \<in> set THEATERS \<Longrightarrow> b \<in> set (baseIds th) \<Longrightarrow> getTheaterForBase b = Some th"
  unfolding getTheaterForBase_def by (rule find_disjoint [OF THEATERS_bases_distinct])

lemma getTheaterForBase_Some:
  "getTheaterForBase b = Some th \<Longrightarrow> th \<in> set THEATERS \<and> b \<in> set (baseIds th)"
  unfolding getTheaterForBase_def by (auto simp: find_Some_iff)

lemma set_update_subset: "set (AList.update k v m) \<subseteq> insert (k, v) (set m)"
  by (induction m) auto

lemma groupFlights_members_aux:
  assumes "\<forall>(k, l)\<in>set m. \<forall>g\<in>set l. \<exists>th. getTheaterForFlight bases g = Some th \<and> id_t th = k"
  shows "\<forall>(k, l)\<in>set (fold (\<lambda>flight m.
            case getTheaterForFlight bases flight of
              None \<Rightarrow> m
            | Some th \<Rightarrow>
                let existing = (case map_of m (id_t th) of Some l \<Rightarrow> l | None \<Rightarrow> [])
                in AList.update (id_t th) (existing @ [flight]) m) flights m).
          \<forall>g\<in>set l. \<exists>th. getTheaterForFlight bases g = Some th \<and> id_t th = k"
  using assms
proof (induction flights arbitrary: m)
  case Nil
  then show ?case by simp
next
  case (Cons f fs)
  show ?case
  proof (cases "getTheaterForFlight bases f")
    case None
    then show ?thesis using Cons.IH [OF Cons.prems] by simp
  next
    case (Some th)
    let ?ex = "case map_of m (id_t th) of Some l \<Rightarrow> l | None \<Rightarrow> []"
    let ?m' = "AList.update (id_t th) (?ex @ [f]) m"
    have ex: "\<forall>g\<in>set ?ex. \<exists>th'. getTheaterForFlight bases g = Some th' \<and> id_t th' = id_t th"
    proof (cases "map_of m (id_t th)")
      case None
      then show ?thesis by simp
    next
      case (Some l)
      then have "(id_t th, l) \<in> set m" by (rule map_of_SomeD)
      with Cons.prems Some show ?thesis by auto
    qed
    have "set ?m' \<subseteq> insert (id_t th, ?ex @ [f]) (set m)"
      by (rule set_update_subset)
    then have "\<forall>(k, l)\<in>set ?m'. \<forall>g\<in>set l. \<exists>th. getTheaterForFlight bases g = Some th \<and> id_t th = k"
      using Cons.prems ex Some by (auto 4 4)
    from Cons.IH [OF this] show ?thesis using Some by (simp add: Let_def)
  qed
qed

lemma groupFlights_members:
  "(k, l) \<in> set (groupFlights bases flights) \<Longrightarrow> g \<in> set l
     \<Longrightarrow> \<exists>th. getTheaterForFlight bases g = Some th \<and> id_t th = k"
  using groupFlights_members_aux [of "[]" bases flights] unfolding groupFlights_def by fastforce

lemma ex1: "getTheaterForBase ''al_udeid'' = Some (THEATERS ! 0)"
  by (simp add: getTheaterForBase_def THEATERS_def)

lemma ex2: "getTheaterForBase ''ramstein'' = Some (THEATERS ! 2)"
  by (simp add: getTheaterForBase_def THEATERS_def)

lemma far_south:
  assumes "10 \<le> la" "la \<le> 90"
  shows "1500 \<le> distanceKm (- 60) 0 la lo"
proof -
  have "6371 * 70 * 2 / 180 \<le> 6371 * \<bar>la - (- 60)\<bar> * pi / 180"
    using assms pi_ge_two by (intro divide_right_mono mult_mono) auto
  also have "\<dots> \<le> distanceKm (- 60) 0 la lo"
    using assms by (intro distanceKm_lower) auto
  finally show ?thesis by simp
qed

text \<open>
  Claim C3, as the code has it.  When some base within 150 km of the flight belongs to a
  theater, \<open>getTheaterForFlight\<close> returns the theater that owns the closest such base,
  whatever the distances to the theater centers are; this is the theater \<open>th\<close> whenever every
  theater-owned base within 150 km belongs to \<open>th\<close>.
\<close>

theorem getTheaterForFlight_closest_owned_base:
  assumes "b \<in> set bases"
    and "distanceKm (lat f) (lon f) (lat_b b) (lon_b b) \<le> 150"
    and "getTheaterForBase (id_b b) \<noteq> None"
  shows "(\<exists>c\<in>set bases.
            distanceKm (lat f) (lon f) (lat_b c) (lon_b c) \<le> 150 \<and>
            getTheaterForBase (id_b c) \<noteq> None \<and>
            getTheaterForFlight bases f = getTheaterForBase (id_b c) \<and>
            (\<forall>c'\<in>set bases.
               distanceKm (lat f) (lon f) (lat_b c') (lon_b c') \<le> 150 \<and>
               getTheaterForBase (id_b c') \<noteq> None \<longrightarrow>
               distanceKm (lat f) (lon f) (lat_b c) (lon_b c)
                 \<le> distanceKm (lat f) (lon f) (lat_b c') (lon_b c')))
       \<and> (th \<in> set THEATERS \<and>
            (\<forall>c\<in>set bases.
               distanceKm (lat f) (lon f) (lat_b c) (lon_b c) \<le> 150 \<and>
               getTheaterForBase (id_b c) \<noteq> None \<longrightarrow> id_b c \<in> set (baseIds th))
          \<longrightarrow> getTheaterForFlight bases f = Some th)"
proof -
  let ?d = "\<lambda>c. distanceKm (lat f) (lon f) (lat_b c) (lon_b c)"
  let ?nb = "\<lambda>c. \<lparr>baseId = id_b c, baseName = name_b c, distance = ?d c\<rparr>"
  let ?near = "findNearbyBases bases (lat f) (lon f)"
  have mem: "?nb b \<in> set ?near" using assms(1,2) by (auto simp: set_findNearbyBases)
  have "\<not> (\<forall>nb\<in>set ?near. getTheaterForBase (baseId nb) = None)"
    using mem assms(3) by (intro notI) (drule bspec, assumption, simp)
  then have "firstBaseTheater ?near \<noteq> None"
    by (simp only: firstBaseTheater_None not_False_eq_True)
  then obtain t where t: "firstBaseTheater ?near = Some t" by auto
  from firstBaseTheater_Some [OF sorted_findNearbyBases t]
  obtain nb where nb: "nb \<in> set ?near" "getTheaterForBase (baseId nb) = Some t"
    "\<forall>nb'\<in>set ?near. getTheaterForBase (baseId nb') \<noteq> None \<longrightarrow> distance nb \<le> distance nb'"
    by blast
  from nb(1) obtain c where c: "c \<in> set bases" "?d c \<le> 150" "nb = ?nb c"
    by (auto simp: set_findNearbyBases)
  have res: "getTheaterForFlight bases f = Some t" by (simp add: getTheaterForFlight_def t)
  have min: "?d c \<le> ?d c'" if "c' \<in> set bases" "?d c' \<le> 150" "getTheaterForBase (id_b c') \<noteq> None" for c'
  proof -
    have "?nb c' \<in> set ?near" using that by (auto simp: set_findNearbyBases)
    with nb(3) that(3) have "distance nb \<le> distance (?nb c')" by (auto simp del: not_None_eq)
    then show ?thesis by (simp add: c(3))
  qed
  have first: "\<exists>c\<in>set bases. ?d c \<le> 150 \<and> getTheaterForBase (id_b c) \<noteq> None \<and>
            getTheaterForFlight bases f = getTheaterForBase (id_b c) \<and>
            (\<forall>c'\<in>set bases. ?d c' \<le> 150 \<and> getTheaterForBase (id_b c') \<noteq> None \<longrightarrow> ?d c \<le> ?d c')"
    using c nb(2) res min by (intro bexI [of _ c]) (auto simp del: not_None_eq)
  have second: "getTheaterForFlight bases f = Some th"
    if "th \<in> set THEATERS"
      "\<forall>c\<in>set bases. ?d c \<le> 150 \<and> getTheaterForBase (id_b c) \<noteq> None \<longrightarrow> id_b c \<in> set (baseIds th)"
  proof -
    have "id_b c \<in> set (baseIds th)" using that(2) c nb(2) by auto
    then have "getTheaterForBase (id_b c) = Some th" by (rule getTheaterForBase_owner [OF that(1)])
    with nb(2) c(3) have "t = th" by simp
    with res show ?thesis by simp
  qed
  from first second show ?thesis by blast
qed

theorem getTheaterForFlight_closest_owned_base_witness:
  "getTheaterForBase ''al_udeid'' \<noteq> None \<and> distanceKm 25 51 25 51 \<le> 150 \<and>
   getTheaterForFlight ex_bases_one (ex_flight 25 51) = Some (THEATERS ! 0)"
proof -
  have "getTheaterForFlight ex_bases_one (ex_flight 25 51) = Some (THEATERS ! 0)"
    by (rule getTheaterForFlight_closest_owned_base [of "hd ex_bases_one" ex_bases_one "ex_flight 25 51" "THEATERS ! 0",
          THEN conjunct2, THEN mp])
      (simp_all add: ex_bases_one_def ex_flight_def distanceKm_same ex1, simp_all add: THEATERS_def)
  then show ?thesis by (simp add: distanceKm_same ex1)
qed

text \<open>
  Claim C3 as stated fails when bases of two theaters are within 150 km: the flight below is
  within 150 km of a base of the first theater (Middle East), and the function returns the
  third theater (Western Europe), whose base is closer.
\<close>

theorem getTheaterForFlight_base_ambiguity_counterexample:
  "\<lparr>id_b = ''al_udeid'', name_b = ''Al Udeid Air Base'', lat_b = 1, lon_b = 0\<rparr> \<in> set ex_bases_overlap \<and>
   distanceKm (lat (ex_flight 0 0)) (lon (ex_flight 0 0)) 1 0 \<le> 150 \<and>
   ''al_udeid'' \<in> set (baseIds (THEATERS ! 0)) \<and>
   getTheaterForFlight ex_bases_overlap (ex_flight 0 0) = Some (THEATERS ! 2) \<and>
   THEATERS ! 2 \<noteq> THEATERS ! 0"
proof -
  have d1: "distanceKm 0 0 1 0 = 6371 * pi / 180"
    using distanceKm_meridian [of 1 0 0] by simp
  have d2: "distanceKm 0 0 (1 / 2) 0 = 6371 * pi / 360"
    using distanceKm_meridian [of "1 / 2" 0 0] by simp
  have c1: "6371 * pi / 180 \<le> 150" using pi_le_16_5 by simp
  have c2: "6371 * pi / 360 \<le> 150" using pi_le_16_5 by simp
  have o: "\<not> 6371 * pi / 180 \<le> 6371 * pi / 360" using pi_gt_zero by simp
  have near: "findNearbyBases ex_bases_overlap 0 0 =
      [\<lparr>baseId = ''ramstein'', baseName = ''Ramstein Air Base'', distance = 6371 * pi / 360\<rparr>,
       \<lparr>baseId = ''al_udeid'', baseName = ''Al Udeid Air Base'', distance = 6371 * pi / 180\<rparr>]"
    using c1 c2 o
    by (simp add: findNearbyBases_def ex_bases_overlap_def List.map_filter_def
        PROXIMITY_RADIUS_KM_def d1 d2)
  have "getTheaterForFlight ex_bases_overlap (ex_flight 0 0) = Some (THEATERS ! 2)"
    by (simp add: getTheaterForFlight_def ex_flight_def near ex2)
  moreover have "THEATERS ! 2 \<noteq> THEATERS ! 0" by (simp add: THEATERS_def)
  moreover have "''al_udeid'' \<in> set (baseIds (THEATERS ! 0))" by (simp add: THEATERS_def)
  ultimately show ?thesis using c1 by (simp add: ex_bases_overlap_def ex_flight_def d1)
qed

text \<open>
  Claim C4, as the code has it.  When no base within 150 km resolves a theater, the result
  is the first theater in catalogue order whose center is less than 1500 km away; when no
  center is that close, the result is no theater, and the flight is in no group of the
  cycle's aggregation.
\<close>

theorem getTheaterForFlight_center_fallback:
  assumes "\<forall>b\<in>set bases. distanceKm (lat f) (lon f) (lat_b b) (lon_b b) \<le> 150
             \<longrightarrow> getTheaterForBase (id_b b) = None"
  shows "getTheaterForFlight bases f =
           find (\<lambda>th. distanceKm (lat f) (lon f) (centerLat th) (centerLon th) < 1500) THEATERS
       \<and> ((\<forall>th\<in>set THEATERS. 1500 \<le> distanceKm (lat f) (lon f) (centerLat th) (centerLon th))
            \<longrightarrow> getTheaterForFlight bases f = None
              \<and> (\<forall>(k, l)\<in>set (groupFlights bases flights). f \<notin> set l))"
proof -
  have "firstBaseTheater (findNearbyBases bases (lat f) (lon f)) = None"
    using assms by (auto simp add: firstBaseTheater_None set_findNearbyBases)
  then have r: "getTheaterForFlight bases f =
           find (\<lambda>th. distanceKm (lat f) (lon f) (centerLat th) (centerLon th) < 1500) THEATERS"
    by (simp add: getTheaterForFlight_def)
  have "getTheaterForFlight bases f = None \<and> (\<forall>(k, l)\<in>set (groupFlights bases flights). f \<notin> set l)"
    if far: "\<forall>th\<in>set THEATERS. 1500 \<le> distanceKm (lat f) (lon f) (centerLat th) (centerLon th)"
  proof -
    have n: "getTheaterForFlight bases f = None"
      unfolding r find_None_iff using far by (auto simp: not_less)
    then show ?thesis using groupFlights_members [of _ _ bases flights f] by fastforce
  qed
  with r show ?thesis by blast
qed

theorem getTheaterForFlight_center_fallback_witness:
  "getTheaterForFlight [] (ex_flight (- 60) 0) = None \<and>
   groupFlights [] [ex_flight (- 60) 0] = [] \<and>
   getTheaterForFlight [] (ex_flight 27 50) = Some (THEATERS ! 0)"
proof -
  have far: "\<forall>th\<in>set THEATERS. 1500 \<le> distanceKm (- 60) 0 (centerLat th) (centerLon th)"
    by (simp add: THEATERS_def far_south)
  have a: "getTheaterForFlight [] (ex_flight (- 60) 0) = None"
    by (rule getTheaterForFlight_center_fallback [of "[]" "ex_flight (- 60) 0" "[]", THEN conjunct2, THEN mp, THEN conjunct1])
      (simp_all add: ex_flight_def far)
  have "getTheaterForFlight [] (ex_flight 27 50) =
      find (\<lambda>th. distanceKm (lat (ex_flight 27 50)) (lon (ex_flight 27 50))
                     (centerLat th) (centerLon th) < 1500) THEATERS"
    by (rule getTheaterForFlight_center_fallback [of "[]" "ex_flight 27 50" "[]", THEN conjunct1]) simp
  then have b: "getTheaterForFlight [] (ex_flight 27 50) = Some (THEATERS ! 0)"
    by (simp add: ex_flight_def THEATERS_def distanceKm_same)
  from a b show ?thesis by (simp add: groupFlights_def)
qed

text \<open>
  Claim C4 as stated fails: with no base nearby, the flight at 15N 50E resolves to the first
  theater (Middle East) although the center of the fifth (Horn of Africa) is nearer and
  also within 1500 km.
\<close>

theorem getTheaterForFlight_not_nearest_counterexample:
  "findNearbyBases [] (lat (ex_flight 15 50)) (lon (ex_flight 15 50)) = [] \<and>
   getTheaterForFlight [] (ex_flight 15 50) = Some (THEATERS ! 0) \<and>
   distanceKm 15 50 (centerLat (THEATERS ! 4)) (centerLon (THEATERS ! 4)) < 1500 \<and>
   distanceKm 15 50 (centerLat (THEATERS ! 4)) (centerLon (THEATERS ! 4))
     < distanceKm 15 50 (centerLat (THEATERS ! 0)) (centerLon (THEATERS ! 0))"
proof -
  have "getTheaterForFlight [] (ex_flight 15 50) = Some (THEATERS ! 0)"
    using dist_15_50_ME_lt
    by (simp add: getTheaterForFlight_def findNearbyBases_def List.map_filter_def ex_flight_def
        THEATERS_def)
  moreover have "distanceKm 15 50 10 40 < 1500"
    using dist_15_50_AH dist_15_50_ME_lt by linarith
  ultimately show ?thesis
    using dist_15_50_AH
    by (simp add: findNearbyBases_def List.map_filter_def THEATERS_def)
qed


section \<open>Baseline\<close>

lemma foldl_sum: "foldl (\<lambda>sum h. sum + f h) (a::nat) xs = a + sum_list (map f xs)"
  by (induction xs arbitrary: a) auto

text \<open>
  Claim C2.  The baseline of a theater is computed from the entries of its history that are
  at most 48 hours (172800000 ms) old: the defaults 3, 2, 1 when there are fewer than 6,
  otherwise the mean of each category, raised to the floors 2, 1, 1.  In every case the
  baseline is at least 2, 1, 1.
\<close>

theorem calculateBaseline_spec:
  "calculateBaseline now s k =
    (let relevant = filter (\<lambda>h. timestamp h \<ge> now - 172800000) (getTheaterActivity s k)
     in if length relevant < 6 then \<lparr>transport = 3, fighter = 2, recon = 1\<rparr>
        else \<lparr>transport = max 2 (mean (map transportCount relevant)),
              fighter = max 1 (mean (map fighterCount relevant)),
              recon = max 1 (mean (map reconCount relevant))\<rparr>)
   \<and> 2 \<le> transport (calculateBaseline now s k)
   \<and> 1 \<le> fighter (calculateBaseline now s k)
   \<and> 1 \<le> recon (calculateBaseline now s k)"
  by (simp add: calculateBaseline_def getTheaterActivity_def mean_def foldl_sum Let_def
      BASELINE_WINDOW_HOURS_def BASELINE_MIN_SAMPLES_def)

section \<open>The grouping of flights\<close>

lemma groupFlights_induct:
  assumes "P []"
    and "\<And>m f th. P m \<Longrightarrow> getTheaterForFlight bases f = Some th \<Longrightarrow>
           P (AList.update (id_t th) ((case map_of m (id_t th) of Some l \<Rightarrow> l | None \<Rightarrow> []) @ [f]) m)"
  shows "P (groupFlights bases flights)"
proof -
  have "P m \<Longrightarrow> P (fold (\<lambda>flight m.
            case getTheaterForFlight bases flight of
              None \<Rightarrow> m
            | Some th \<Rightarrow>
                let existing = (case map_of m (id_t th) of Some l \<Rightarrow> l | None \<Rightarrow> [])
                in AList.update (id_t th) (existing @ [flight]) m) flights m)" for m
  proof (induction flights arbitrary: m)
    case Nil
    then show ?case by simp
  next
    case (Cons f fs)
    show ?case
    proof (cases "getTheaterForFlight bases f")
      case None
      then show ?thesis using Cons by simp
    next
      case (Some th)
      from assms(2) [OF Cons.prems Some] Cons.IH show ?thesis using Some by (simp add: Let_def)
    qed
  qed
  from this [OF assms(1)] show ?thesis by (simp add: groupFlights_def)
qed

lemma groupFlights_distinct: "distinct (map fst (groupFlights bases flights))"
  by (rule groupFlights_induct) (simp_all add: distinct_update)

lemma getTheaterForFlight_in_THEATERS:
  "getTheaterForFlight bases f = Some th \<Longrightarrow> th \<in> set THEATERS"
proof -
  have fbt: "firstBaseTheater xs = Some t \<Longrightarrow> t \<in> set THEATERS" for xs t
    by (induction xs) (auto simp: getTheaterForBase_def find_Some_iff split: option.splits)
  assume "getTheaterForFlight bases f = Some th"
  then show ?thesis
    by (auto simp: getTheaterForFlight_def find_Some_iff split: option.splits dest: fbt)
qed

lemma find_theater_by_id:
  "th \<in> set THEATERS \<Longrightarrow> \<exists>th'. find (\<lambda>t. id_t t = id_t th) THEATERS = Some th' \<and> id_t th' = id_t th"
proof -
  assume a: "th \<in> set THEATERS"
  then have "find (\<lambda>t. id_t t = id_t th) THEATERS \<noteq> None" by (auto simp: find_None_iff)
  then obtain th' where f: "find (\<lambda>t. id_t t = id_t th) THEATERS = Some th'" by auto
  then have "id_t th' = id_t th" by (auto simp: find_Some_iff)
  with f show ?thesis by blast
qed

lemma groupFlights_keys:
  "\<forall>(k, l)\<in>set (groupFlights bases flights). \<exists>th. find (\<lambda>t. id_t t = k) THEATERS = Some th \<and> id_t th = k"
proof (rule groupFlights_induct)
  show "\<forall>(k, l)\<in>set []. \<exists>th. find (\<lambda>t. id_t t = k) THEATERS = Some th \<and> id_t th = k" by simp
next
  fix m :: "(string \<times> MilitaryFlight list) list" and f th
  assume m: "\<forall>(k, l)\<in>set m. \<exists>th. find (\<lambda>t. id_t t = k) THEATERS = Some th \<and> id_t th = k"
    and g: "getTheaterForFlight bases f = Some th"
  let ?v = "(case map_of m (id_t th) of Some l \<Rightarrow> l | None \<Rightarrow> []) @ [f]"
  have "\<exists>th'. find (\<lambda>t. id_t t = id_t th) THEATERS = Some th' \<and> id_t th' = id_t th"
    by (rule find_theater_by_id [OF getTheaterForFlight_in_THEATERS [OF g]])
  with m set_update_subset [of "id_t th" ?v m]
  show "\<forall>(k, l)\<in>set (AList.update (id_t th) ?v m).
           \<exists>th. find (\<lambda>t. id_t t = k) THEATERS = Some th \<and> id_t th = k"
    by auto
qed

section \<open>One iteration of the theater loop\<close>

lemma airlift_fighter_keys [simp]:
  "airliftId k \<noteq> fighterId k'" "fighterId k \<noteq> airliftId k'"
  "airliftId k = airliftId k' \<longleftrightarrow> k = k'" "fighterId k = fighterId k' \<longleftrightarrow> k = k'"
  by (simp_all add: airliftId_def fighterId_def)

lemma calculateBaseline_cong:
  "map_of (activityHistory s1) k = map_of (activityHistory s2) k
     \<Longrightarrow> calculateBaseline now s1 k = calculateBaseline now s2 k"
  by (simp add: calculateBaseline_def getHistory_def)

lemma detectAirlift_frame:
  "activityHistory (fst (detectAirlift now th k c b sn)) = activityHistory (fst sn)"
  "lastCleanup (fst (detectAirlift now th k c b sn)) = lastCleanup (fst sn)"
  by (auto simp add: detectAirlift_def Let_def split: prod.splits option.splits)

lemma detectFighter_frame:
  "activityHistory (fst (detectFighter now th k c b sn)) = activityHistory (fst sn)"
  "lastCleanup (fst (detectFighter now th k c b sn)) = lastCleanup (fst sn)"
  by (auto simp add: detectFighter_def Let_def split: prod.splits option.splits)

lemma detectAirlift_other:
  "key \<noteq> airliftId k \<Longrightarrow>
     map_of (activeSurges (fst (detectAirlift now th k c b sn))) key = map_of (activeSurges (fst sn)) key"
  by (auto simp add: detectAirlift_def Let_def update_conv' split: prod.splits option.splits)

lemma detectFighter_other:
  "key \<noteq> fighterId k \<Longrightarrow>
     map_of (activeSurges (fst (detectFighter now th k c b sn))) key = map_of (activeSurges (fst sn)) key"
  by (auto simp add: detectFighter_def Let_def update_conv' split: prod.splits option.splits)

text \<open>What the airlift block does to the entry of its key, and what it appends.\<close>

lemma detectAirlift_key:
  "map_of (activeSurges (fst (detectAirlift now th k c b (s, acc)))) (airliftId k) =
    (if real (transportCount_c c) \<ge> transport b * 2 \<and> transportCount_c c \<ge> 5
     then Some (case map_of (activeSurges s) (airliftId k) of
                  Some existing \<Rightarrow>
                    existing\<lparr>currentCount := transportCount_c c,
                              surgeMultiple := real (transportCount_c c) / transport b,
                              aircraftTypes := aircraftTypes_c c,
                              nearbyBases := nearbyBasesSet c,
                              lastUpdated := now\<rparr>
                | None \<Rightarrow>
                    \<lparr>id_a = airliftId k, theater = th, type_a = AirliftSurge,
                     currentCount = transportCount_c c,
                     baselineCount = Math_round (transport b),
                     surgeMultiple = real (transportCount_c c) / transport b,
                     aircraftTypes = aircraftTypes_c c,
                     nearbyBases = nearbyBasesSet c,
                     firstDetected = now, lastUpdated = now\<rparr>)
     else map_of (activeSurges s) (airliftId k))"
  by (auto simp add: detectAirlift_def Let_def update_conv' SURGE_THRESHOLD_def split: option.splits)

lemma detectAirlift_alerts:
  "snd (detectAirlift now th k c b (s, acc)) =
    acc @ (if real (transportCount_c c) \<ge> transport b * 2 \<and> transportCount_c c \<ge> 5
              \<and> map_of (activeSurges s) (airliftId k) = None
           then [\<lparr>id_a = airliftId k, theater = th, type_a = AirliftSurge,
                     currentCount = transportCount_c c,
                     baselineCount = Math_round (transport b),
                     surgeMultiple = real (transportCount_c c) / transport b,
                     aircraftTypes = aircraftTypes_c c,
                     nearbyBases = nearbyBasesSet c,
                     firstDetected = now, lastUpdated = now\<rparr>]
           else [])"
  by (auto simp add: detectAirlift_def Let_def SURGE_THRESHOLD_def split: option.splits)

lemma detectFighter_key:
  "map_of (activeSurges (fst (detectFighter now th k c b (s, acc)))) (fighterId k) =
    (if real (fighterCount_c c) \<ge> fighter b * 2 \<and> fighterCount_c c \<ge> 4
        \<and> map_of (activeSurges s) (fighterId k) = None
     then Some \<lparr>id_a = fighterId k, theater = th, type_a = FighterSurge,
                     currentCount = fighterCount_c c,
                     baselineCount = Math_round (fighter b),
                     surgeMultiple = real (fighterCount_c c) / fighter b,
                     aircraftTypes = aircraftTypes_c c,
                     nearbyBases = nearbyBasesSet c,
                     firstDetected = now, lastUpdated = now\<rparr>
     else map_of (activeSurges s) (fighterId k))"
  by (auto simp add: detectFighter_def Let_def update_conv' SURGE_THRESHOLD_def split: option.splits)

lemma detectFighter_alerts:
  "snd (detectFighter now th k c b (s, acc)) =
    acc @ (if real (fighterCount_c c) \<ge> fighter b * 2 \<and> fighterCount_c c \<ge> 4
              \<and> map_of (activeSurges s) (fighterId k) = None
           then [\<lparr>id_a = fighterId k, theater = th, type_a = FighterSurge,
                     currentCount = fighterCount_c c,
                     baselineCount = Math_round (fighter b),
                     surgeMultiple = real (fighterCount_c c) / fighter b,
                     aircraftTypes = aircraftTypes_c c,
                     nearbyBases = nearbyBasesSet c,
                     firstDetected = now, lastUpdated = now\<rparr>]
           else [])"
  by (auto simp add: detectFighter_def Let_def SURGE_THRESHOLD_def split: option.splits)

lemma recordActivity_simps:
  "map_of (activityHistory (recordActivity k a s)) k' =
     (if k' = k then Some (pushHistory a (getHistory (activityHistory s) k))
      else map_of (activityHistory s) k')"
  "activeSurges (recordActivity k a s) = activeSurges s"
  "lastCleanup (recordActivity k a s) = lastCleanup s"
  by (simp_all add: recordActivity_def update_conv')

lemma processTheater_Some:
  "find (\<lambda>t. id_t t = k) THEATERS = Some th \<Longrightarrow>
   processTheater now bases (k, fl) (s, acc) =
     detectFighter now th k (tallyFlights bases fl)
       (calculateBaseline now (recordActivity k (mkActivity now k fl (tallyFlights bases fl)) s) k)
       (detectAirlift now th k (tallyFlights bases fl)
          (calculateBaseline now (recordActivity k (mkActivity now k fl (tallyFlights bases fl)) s) k)
          (recordActivity k (mkActivity now k fl (tallyFlights bases fl)) s, acc))"
  by (simp add: processTheater_def Let_def)

lemma processTheater_None:
  "find (\<lambda>t. id_t t = k) THEATERS = None \<Longrightarrow> processTheater now bases (k, fl) sn = sn"
  by (simp add: processTheater_def split: prod.splits)

lemma processTheater_lastCleanup:
  "lastCleanup (fst (processTheater now bases g sn)) = lastCleanup (fst sn)"
proof (cases g, cases sn)
  fix k fl s acc
  assume g: "g = (k, fl)" and sn: "sn = (s, acc)"
  show ?thesis
  proof (cases "find (\<lambda>t. id_t t = k) THEATERS")
    case None
    then show ?thesis by (simp add: g processTheater_None)
  next
    case (Some th)
    show ?thesis
      by (simp add: g sn processTheater_Some [OF Some] detectFighter_frame detectAirlift_frame
          recordActivity_simps)
  qed
qed

lemma processTheater_history:
  "map_of (activityHistory (fst (processTheater now bases (k, fl) (s, acc)))) k' =
    (if k' = k \<and> find (\<lambda>t. id_t t = k) THEATERS \<noteq> None
     then Some (pushHistory (mkActivity now k fl (tallyFlights bases fl)) (getHistory (activityHistory s) k))
     else map_of (activityHistory s) k')"
proof (cases "find (\<lambda>t. id_t t = k) THEATERS")
  case None
  then show ?thesis by (simp add: processTheater_None)
next
  case (Some th)
  show ?thesis
    by (simp add: processTheater_Some [OF Some] detectFighter_frame detectAirlift_frame
        recordActivity_simps Some)
qed

lemma processTheater_surges_other:
  assumes "key \<noteq> airliftId k" "key \<noteq> fighterId k"
  shows "map_of (activeSurges (fst (processTheater now bases (k, fl) (s, acc)))) key =
         map_of (activeSurges s) key"
proof (cases "find (\<lambda>t. id_t t = k) THEATERS")
  case None
  then show ?thesis by (simp add: processTheater_None)
next
  case (Some th)
  show ?thesis
    by (simp add: processTheater_Some [OF Some] detectFighter_other [OF assms(2)]
        detectAirlift_other [OF assms(1)] recordActivity_simps)
qed

lemma processTheater_view_other:
  "k' \<noteq> k \<Longrightarrow> theaterView k' (fst (processTheater now bases (k, fl) (s, acc))) = theaterView k' s"
  by (simp add: theaterView_def processTheater_history processTheater_surges_other)

text \<open>The alerts one iteration appends.\<close>

lemma processTheater_alerts:
  "\<exists>new. snd (processTheater now bases (k, fl) (s, acc)) = acc @ new \<and>
         (\<forall>a\<in>set new. id_a a = airliftId k \<or> id_a a = fighterId k)"
proof (cases "find (\<lambda>t. id_t t = k) THEATERS")
  case None
  then show ?thesis by (simp add: processTheater_None)
next
  case (Some th)
  show ?thesis
    unfolding processTheater_Some [OF Some]
    by (cases "detectAirlift now th k (tallyFlights bases fl)
          (calculateBaseline now (recordActivity k (mkActivity now k fl (tallyFlights bases fl)) s) k)
          (recordActivity k (mkActivity now k fl (tallyFlights bases fl)) s, acc)")
       (use detectAirlift_alerts [of now th k "tallyFlights bases fl"
          "calculateBaseline now (recordActivity k (mkActivity now k fl (tallyFlights bases fl)) s) k"
          "recordActivity k (mkActivity now k fl (tallyFlights bases fl)) s" acc]
        in \<open>auto simp add: detectFighter_alerts\<close>)
qed

lemma processTheater_alerts_other:
  "k' \<noteq> k \<Longrightarrow> alertsOf k' (snd (processTheater now bases (k, fl) (s, acc))) = alertsOf k' acc"
  using processTheater_alerts [of now bases k fl s acc]
  by (auto simp add: alertsOf_def filter_empty_conv) (metis airlift_fighter_keys)+

lemma processTheater_cong:
  assumes "theaterView k s1 = theaterView k s2"
  shows "theaterView k (fst (processTheater now bases (k, fl) (s1, a1))) =
         theaterView k (fst (processTheater now bases (k, fl) (s2, a2)))"
    and "\<exists>new. snd (processTheater now bases (k, fl) (s1, a1)) = a1 @ new \<and>
               snd (processTheater now bases (k, fl) (s2, a2)) = a2 @ new \<and>
               alertsOf k new = new"
proof -
  from assms have h: "map_of (activityHistory s1) k = map_of (activityHistory s2) k"
    and a: "map_of (activeSurges s1) (airliftId k) = map_of (activeSurges s2) (airliftId k)"
    and f: "map_of (activeSurges s1) (fighterId k) = map_of (activeSurges s2) (fighterId k)"
    by (simp_all add: theaterView_def)
  have gh: "getHistory (activityHistory s1) k = getHistory (activityHistory s2) k"
    by (simp add: getHistory_def h)
  let ?c = "tallyFlights bases fl"
  let ?r = "\<lambda>s. recordActivity k (mkActivity now k fl ?c) s"
  have b: "calculateBaseline now (?r s1) k = calculateBaseline now (?r s2) k"
    by (rule calculateBaseline_cong) (simp add: recordActivity_simps gh)
  show "theaterView k (fst (processTheater now bases (k, fl) (s1, a1))) =
         theaterView k (fst (processTheater now bases (k, fl) (s2, a2)))"
  proof (cases "find (\<lambda>t. id_t t = k) THEATERS")
    case None
    then show ?thesis using assms by (simp add: processTheater_None)
  next
    case (Some th)
    obtain u1 n1 where d1: "detectAirlift now th k ?c (calculateBaseline now (?r s2) k) (?r s1, a1) = (u1, n1)"
      by (cases "detectAirlift now th k ?c (calculateBaseline now (?r s2) k) (?r s1, a1)")
    obtain u2 n2 where d2: "detectAirlift now th k ?c (calculateBaseline now (?r s2) k) (?r s2, a2) = (u2, n2)"
      by (cases "detectAirlift now th k ?c (calculateBaseline now (?r s2) k) (?r s2, a2)")
    have fu: "map_of (activeSurges u1) (fighterId k) = map_of (activeSurges u2) (fighterId k)"
      using detectAirlift_other [of "fighterId k" k now th ?c "calculateBaseline now (?r s2) k" "(?r s1, a1)"]
        detectAirlift_other [of "fighterId k" k now th ?c "calculateBaseline now (?r s2) k" "(?r s2, a2)"]
        f
      by (simp add: d1 d2 recordActivity_simps)
    have au: "map_of (activeSurges u1) (airliftId k) = map_of (activeSurges u2) (airliftId k)"
      using detectAirlift_key [of now th k ?c "calculateBaseline now (?r s2) k" "?r s1" a1]
        detectAirlift_key [of now th k ?c "calculateBaseline now (?r s2) k" "?r s2" a2]
        a
      by (simp add: d1 d2 recordActivity_simps)
    have hu: "activityHistory u1 = activityHistory (?r s1)" "activityHistory u2 = activityHistory (?r s2)"
      using detectAirlift_frame(1) [of now th k ?c "calculateBaseline now (?r s2) k" "(?r s1, a1)"]
        detectAirlift_frame(1) [of now th k ?c "calculateBaseline now (?r s2) k" "(?r s2, a2)"]
      by (simp_all add: d1 d2)
    show ?thesis
      unfolding processTheater_Some [OF Some] b d1 d2 theaterView_def
      using au fu
      by (simp add: detectFighter_frame detectFighter_key detectFighter_other hu
          recordActivity_simps gh)
  qed
  show "\<exists>new. snd (processTheater now bases (k, fl) (s1, a1)) = a1 @ new \<and>
               snd (processTheater now bases (k, fl) (s2, a2)) = a2 @ new \<and>
               alertsOf k new = new"
  proof (cases "find (\<lambda>t. id_t t = k) THEATERS")
    case None
    then show ?thesis by (simp add: processTheater_None alertsOf_def)
  next
    case (Some th)
    obtain u1 n1 where d1: "detectAirlift now th k ?c (calculateBaseline now (?r s2) k) (?r s1, a1) = (u1, n1)"
      by (cases "detectAirlift now th k ?c (calculateBaseline now (?r s2) k) (?r s1, a1)")
    obtain u2 n2 where d2: "detectAirlift now th k ?c (calculateBaseline now (?r s2) k) (?r s2, a2) = (u2, n2)"
      by (cases "detectAirlift now th k ?c (calculateBaseline now (?r s2) k) (?r s2, a2)")
    have fu: "map_of (activeSurges u1) (fighterId k) = map_of (activeSurges u2) (fighterId k)"
      using detectAirlift_other [of "fighterId k" k now th ?c "calculateBaseline now (?r s2) k" "(?r s1, a1)"]
        detectAirlift_other [of "fighterId k" k now th ?c "calculateBaseline now (?r s2) k" "(?r s2, a2)"]
        f
      by (simp add: d1 d2 recordActivity_simps)
    have n: "\<exists>na. n1 = a1 @ na \<and> n2 = a2 @ na \<and> alertsOf k na = na"
      using detectAirlift_alerts [of now th k ?c "calculateBaseline now (?r s2) k" "?r s1" a1]
        detectAirlift_alerts [of now th k ?c "calculateBaseline now (?r s2) k" "?r s2" a2]
        a
      by (simp add: d1 d2 recordActivity_simps alertsOf_def)
    then obtain na where na: "n1 = a1 @ na" "n2 = a2 @ na" "alertsOf k na = na" by blast
    show ?thesis
      unfolding processTheater_Some [OF Some] b d1 d2
      using na fu by (auto simp add: detectFighter_alerts alertsOf_def)
  qed
qed

section \<open>The theater loop\<close>

lemma fold_processTheater_notin:
  "k \<notin> fst ` set gs \<Longrightarrow>
     theaterView k (fst (fold (processTheater now bases) gs sn)) = theaterView k (fst sn) \<and>
     alertsOf k (snd (fold (processTheater now bases) gs sn)) = alertsOf k (snd sn)"
proof (induction gs arbitrary: sn)
  case Nil
  then show ?case by simp
next
  case (Cons g gs)
  obtain k' fl' where g: "g = (k', fl')" by (cases g)
  obtain s acc where sn: "sn = (s, acc)" by (cases sn)
  from Cons.prems g have ne: "k \<noteq> k'" and nin: "k \<notin> fst ` set gs" by auto
  show ?case
    using Cons.IH [OF nin, of "processTheater now bases g sn"]
    by (simp add: g sn processTheater_view_other [OF ne] processTheater_alerts_other [OF ne])
qed

lemma fold_processTheater_in:
  assumes "distinct (map fst gs)" "(k, fl) \<in> set gs"
  shows "theaterView k (fst (fold (processTheater now bases) gs (s, acc))) =
           theaterView k (fst (processTheater now bases (k, fl) (s, []))) \<and>
         alertsOf k (snd (fold (processTheater now bases) gs (s, acc))) =
           alertsOf k acc @ snd (processTheater now bases (k, fl) (s, []))"
  using assms
proof (induction gs arbitrary: s acc)
  case Nil
  then show ?case by simp
next
  case (Cons g gs)
  obtain k' fl' where g: "g = (k', fl')" by (cases g)
  obtain s' acc' where p: "processTheater now bases (k', fl') (s, acc) = (s', acc')"
    by (cases "processTheater now bases (k', fl') (s, acc)")
  show ?case
  proof (cases "k' = k")
    case True
    with Cons.prems g have fl: "fl' = fl" and nin: "k \<notin> fst ` set gs"
      by (auto simp: rev_image_eqI)
    from processTheater_cong [of k s s now bases fl acc "[]"]
    obtain new where v: "theaterView k (fst (processTheater now bases (k, fl) (s, acc))) =
         theaterView k (fst (processTheater now bases (k, fl) (s, [])))"
      and n: "snd (processTheater now bases (k, fl) (s, acc)) = acc @ new"
        "snd (processTheater now bases (k, fl) (s, [])) = new" "alertsOf k new = new"
      by auto
    from fold_processTheater_notin [OF nin, of now bases "processTheater now bases (k, fl) (s, acc)"]
    show ?thesis using v n by (simp add: g True fl alertsOf_def)
  next
    case False
    with Cons.prems g have d: "distinct (map fst gs)" and m: "(k, fl) \<in> set gs" by auto
    have ne: "k \<noteq> k'" using False by simp
    have v: "theaterView k s' = theaterView k s"
      using processTheater_view_other [OF ne, of now bases fl' s acc] by (simp add: p)
    have a: "alertsOf k acc' = alertsOf k acc"
      using processTheater_alerts_other [OF ne, of now bases fl' s acc] by (simp add: p)
    from processTheater_cong [OF v, of now bases fl "[]" "[]"]
    have c: "theaterView k (fst (processTheater now bases (k, fl) (s', []))) =
         theaterView k (fst (processTheater now bases (k, fl) (s, [])))"
      "snd (processTheater now bases (k, fl) (s', [])) = snd (processTheater now bases (k, fl) (s, []))"
      by auto
    from Cons.IH [OF d m, of s' acc'] show ?thesis by (simp add: g p c a)
  qed
qed

lemma fold_processTheater_lastCleanup:
  "lastCleanup (fst (fold (processTheater now bases) gs sn)) = lastCleanup (fst sn)"
  by (induction gs arbitrary: sn) (simp_all add: processTheater_lastCleanup)

lemma fold_processTheater_origin:
  "a \<in> set (snd (fold (processTheater now bases) gs sn)) \<Longrightarrow>
     a \<in> set (snd sn) \<or> (\<exists>(k, fl)\<in>set gs. id_a a = airliftId k \<or> id_a a = fighterId k)"
proof (induction gs arbitrary: sn)
  case Nil
  then show ?case by simp
next
  case (Cons g gs)
  obtain k fl where g: "g = (k, fl)" by (cases g)
  obtain s acc where sn: "sn = (s, acc)" by (cases sn)
  from Cons.prems have "a \<in> set (snd (fold (processTheater now bases) gs (processTheater now bases g sn)))"
    by simp
  from Cons.IH [OF this] processTheater_alerts [of now bases k fl s acc]
  show ?case by (auto simp add: g sn)
qed

lemma analyze_fst:
  "fst (analyzeFlightsForSurge now bases flights s) =
     snd (fold (processTheater now bases) (groupFlights bases flights) (cleanupOldHistory now s, []))"
  by (simp add: analyzeFlightsForSurge_def Let_def split: prod.splits)

lemma analyze_snd:
  "snd (analyzeFlightsForSurge now bases flights s) =
     fst (fold (processTheater now bases) (groupFlights bases flights) (cleanupOldHistory now s, []))"
  by (simp add: analyzeFlightsForSurge_def Let_def split: prod.splits)

lemma analyze_theater:
  assumes "(k, fl) \<in> set (groupFlights bases flights)"
  shows "theaterView k (snd (analyzeFlightsForSurge now bases flights s)) =
           theaterView k (fst (processTheater now bases (k, fl) (cleanupOldHistory now s, [])))"
    and "alertsOf k (fst (analyzeFlightsForSurge now bases flights s)) =
           snd (processTheater now bases (k, fl) (cleanupOldHistory now s, []))"
  using fold_processTheater_in [OF groupFlights_distinct assms, of now bases "cleanupOldHistory now s" "[]"]
  by (simp_all add: analyze_fst analyze_snd alertsOf_def)

lemma analyze_no_theater:
  assumes "k \<notin> fst ` set (groupFlights bases flights)"
  shows "theaterView k (snd (analyzeFlightsForSurge now bases flights s)) =
           theaterView k (cleanupOldHistory now s)"
    and "alertsOf k (fst (analyzeFlightsForSurge now bases flights s)) = []"
  using fold_processTheater_notin [OF assms, of now bases "(cleanupOldHistory now s, [])"]
  by (simp_all add: analyze_fst analyze_snd alertsOf_def)

lemma analyze_lastCleanup:
  "lastCleanup (snd (analyzeFlightsForSurge now bases flights s)) = lastCleanup (cleanupOldHistory now s)"
  by (simp add: analyze_snd fold_processTheater_lastCleanup)

lemma filter_alertsOf:
  "filter (\<lambda>a. id_a a = airliftId k) (alertsOf k as) = filter (\<lambda>a. id_a a = airliftId k) as"
  "filter (\<lambda>a. id_a a = fighterId k) (alertsOf k as) = filter (\<lambda>a. id_a a = fighterId k) as"
  by (induction as) (auto simp add: alertsOf_def)

lemma analyze_theater_core:
  fixes now bases flights s k fl th
  defines "s0 \<equiv> cleanupOldHistory now s"
    and "s' \<equiv> snd (analyzeFlightsForSurge now bases flights s)"
    and "alerts \<equiv> fst (analyzeFlightsForSurge now bases flights s)"
    and "c \<equiv> tallyFlights bases fl"
  defines "b \<equiv> calculateBaseline now s' k"
  defines "detA \<equiv> real (transportCount_c c) \<ge> transport b * 2 \<and> transportCount_c c \<ge> 5"
    and "detF \<equiv> real (fighterCount_c c) \<ge> fighter b * 2 \<and> fighterCount_c c \<ge> 4"
    and "alertA \<equiv> \<lparr>id_a = airliftId k, theater = th, type_a = AirliftSurge,
                     currentCount = transportCount_c c,
                     baselineCount = Math_round (transport b),
                     surgeMultiple = real (transportCount_c c) / transport b,
                     aircraftTypes = aircraftTypes_c c,
                     nearbyBases = nearbyBasesSet c,
                     firstDetected = now, lastUpdated = now\<rparr>"
    and "alertF \<equiv> \<lparr>id_a = fighterId k, theater = th, type_a = FighterSurge,
                     currentCount = fighterCount_c c,
                     baselineCount = Math_round (fighter b),
                     surgeMultiple = real (fighterCount_c c) / fighter b,
                     aircraftTypes = aircraftTypes_c c,
                     nearbyBases = nearbyBasesSet c,
                     firstDetected = now, lastUpdated = now\<rparr>"
  assumes g: "(k, fl) \<in> set (groupFlights bases flights)"
    and th: "find (\<lambda>t. id_t t = k) THEATERS = Some th"
  shows "map_of (activityHistory s') k =
           Some (pushHistory (mkActivity now k fl c) (getHistory (activityHistory s0) k))"
    and "map_of (activeSurges s') (airliftId k) =
          (if detA
           then Some (case map_of (activeSurges s0) (airliftId k) of
                  Some existing \<Rightarrow>
                    existing\<lparr>currentCount := transportCount_c c,
                              surgeMultiple := real (transportCount_c c) / transport b,
                              aircraftTypes := aircraftTypes_c c,
                              nearbyBases := nearbyBasesSet c,
                              lastUpdated := now\<rparr>
                | None \<Rightarrow> alertA)
           else map_of (activeSurges s0) (airliftId k))"
    and "filter (\<lambda>a. id_a a = airliftId k) alerts =
          (if detA \<and> map_of (activeSurges s0) (airliftId k) = None then [alertA] else [])"
    and "map_of (activeSurges s') (fighterId k) =
          (if detF \<and> map_of (activeSurges s0) (fighterId k) = None then Some alertF
           else map_of (activeSurges s0) (fighterId k))"
    and "filter (\<lambda>a. id_a a = fighterId k) alerts =
          (if detF \<and> map_of (activeSurges s0) (fighterId k) = None then [alertF] else [])"
    and "b = calculateBaseline now (recordActivity k (mkActivity now k fl c) s0) k"
proof -
  let ?r = "recordActivity k (mkActivity now k fl c) s0"
  let ?b0 = "calculateBaseline now ?r k"
  obtain u n1 where d: "detectAirlift now th k c ?b0 (?r, []) = (u, n1)"
    by (cases "detectAirlift now th k c ?b0 (?r, [])")
  have P: "processTheater now bases (k, fl) (s0, []) = detectFighter now th k c ?b0 (u, n1)"
    using d by (simp add: processTheater_Some [OF th] c_def)
  have v: "theaterView k s' = theaterView k (fst (detectFighter now th k c ?b0 (u, n1)))"
    and al: "alertsOf k alerts = snd (detectFighter now th k c ?b0 (u, n1))"
    using analyze_theater [OF g, of now s] P by (simp_all add: s'_def alerts_def s0_def)
  have uh: "activityHistory u = activityHistory ?r"
    using detectAirlift_frame(1) [of now th k c ?b0 "(?r, [])"] by (simp add: d)
  have h: "map_of (activityHistory s') k = map_of (activityHistory ?r) k"
    using v by (simp add: theaterView_def detectFighter_frame uh)
  then show "map_of (activityHistory s') k =
           Some (pushHistory (mkActivity now k fl c) (getHistory (activityHistory s0) k))"
    by (simp add: recordActivity_simps)
  have b: "b = ?b0" unfolding b_def by (rule calculateBaseline_cong [OF h])
  then show "b = calculateBaseline now (recordActivity k (mkActivity now k fl c) s0) k" .
  have ua: "map_of (activeSurges u) (airliftId k) =
          (if detA
           then Some (case map_of (activeSurges s0) (airliftId k) of
                  Some existing \<Rightarrow>
                    existing\<lparr>currentCount := transportCount_c c,
                              surgeMultiple := real (transportCount_c c) / transport b,
                              aircraftTypes := aircraftTypes_c c,
                              nearbyBases := nearbyBasesSet c,
                              lastUpdated := now\<rparr>
                | None \<Rightarrow> alertA)
           else map_of (activeSurges s0) (airliftId k))"
    unfolding b detA_def alertA_def
    using detectAirlift_key [of now th k c ?b0 ?r "[]", unfolded recordActivity_simps(2) d]
    by simp
  have uf: "map_of (activeSurges u) (fighterId k) = map_of (activeSurges s0) (fighterId k)"
    using detectAirlift_other [of "fighterId k" k now th c ?b0 "(?r, [])"]
    by (simp add: d recordActivity_simps)
  have n1: "n1 = (if detA \<and> map_of (activeSurges s0) (airliftId k) = None then [alertA] else [])"
    unfolding b detA_def alertA_def
    using detectAirlift_alerts [of now th k c ?b0 ?r "[]", unfolded recordActivity_simps(2) d]
    by simp
  show "map_of (activeSurges s') (airliftId k) =
          (if detA
           then Some (case map_of (activeSurges s0) (airliftId k) of
                  Some existing \<Rightarrow>
                    existing\<lparr>currentCount := transportCount_c c,
                              surgeMultiple := real (transportCount_c c) / transport b,
                              aircraftTypes := aircraftTypes_c c,
                              nearbyBases := nearbyBasesSet c,
                              lastUpdated := now\<rparr>
                | None \<Rightarrow> alertA)
           else map_of (activeSurges s0) (airliftId k))"
    using v ua by (simp add: theaterView_def detectFighter_other)
  show "map_of (activeSurges s') (fighterId k) =
          (if detF \<and> map_of (activeSurges s0) (fighterId k) = None then Some alertF
           else map_of (activeSurges s0) (fighterId k))"
    using v by (simp add: theaterView_def detectFighter_key uf b detF_def alertF_def)
  have al': "alertsOf k alerts =
      n1 @ (if detF \<and> map_of (activeSurges s0) (fighterId k) = None then [alertF] else [])"
    by (simp add: al detectFighter_alerts uf b detF_def alertF_def)
  have "filter (\<lambda>a. id_a a = airliftId k) alerts = filter (\<lambda>a. id_a a = airliftId k) (alertsOf k alerts)"
    by (simp add: filter_alertsOf)
  then show "filter (\<lambda>a. id_a a = airliftId k) alerts =
          (if detA \<and> map_of (activeSurges s0) (airliftId k) = None then [alertA] else [])"
    by (simp add: al' n1 alertA_def alertF_def)
  have "filter (\<lambda>a. id_a a = fighterId k) alerts = filter (\<lambda>a. id_a a = fighterId k) (alertsOf k alerts)"
    by (simp add: filter_alertsOf)
  then show "filter (\<lambda>a. id_a a = fighterId k) alerts =
          (if detF \<and> map_of (activeSurges s0) (fighterId k) = None then [alertF] else [])"
    by (simp add: al' n1 alertA_def alertF_def)
qed

lemma in_filter_singleton: "a \<in> set xs \<Longrightarrow> P a \<Longrightarrow> filter P xs = ys \<Longrightarrow> a \<in> set ys"
  by auto

lemma analyze_alerts_new:
  assumes "a \<in> set (fst (analyzeFlightsForSurge now bases flights s))"
  shows "map_of (activeSurges (cleanupOldHistory now s)) (id_a a) = None \<and>
         map_of (activeSurges (snd (analyzeFlightsForSurge now bases flights s))) (id_a a) = Some a"
proof -
  from assms fold_processTheater_origin [of a now bases "groupFlights bases flights" "(cleanupOldHistory now s, [])"]
  obtain k fl where g: "(k, fl) \<in> set (groupFlights bases flights)"
    and i: "id_a a = airliftId k \<or> id_a a = fighterId k"
    by (auto simp add: analyze_fst)
  from groupFlights_keys [of bases flights] g
  obtain th where th: "find (\<lambda>t. id_t t = k) THEATERS = Some th" by auto
  note core = analyze_theater_core [OF g th, of now s]
  from i show ?thesis
  proof
    assume i: "id_a a = airliftId k"
    from in_filter_singleton [OF assms, of "\<lambda>a. id_a a = airliftId k", OF i core(3)]
    show ?thesis using core(2) by (auto simp add: i split: if_splits)
  next
    assume i: "id_a a = fighterId k"
    from in_filter_singleton [OF assms, of "\<lambda>a. id_a a = fighterId k", OF i core(5)]
    show ?thesis using core(4) by (auto simp add: i split: if_splits)
  qed
qed

section \<open>Cleanup\<close>

lemma pruneHistoryEntry_map_of:
  "map_of (pruneHistoryEntry c (k', h') m) k =
    (if k = k' then (if filter (\<lambda>h. timestamp h \<ge> c) h' = [] then None
                     else Some (filter (\<lambda>h. timestamp h \<ge> c) h'))
     else map_of m k)"
  by (simp add: pruneHistoryEntry_def Let_def update_conv' delete_conv')

lemma pruneHistoryEntry_distinct:
  "distinct (map fst m) \<Longrightarrow> distinct (map fst (pruneHistoryEntry c e m))"
  by (cases e) (simp add: pruneHistoryEntry_def Let_def distinct_update distinct_delete)

lemma fold_prune_map_of:
  assumes "distinct (map fst es)"
  shows "map_of (fold (pruneHistoryEntry c) es m) k =
         (case map_of es k of
            None \<Rightarrow> map_of m k
          | Some h \<Rightarrow> if filter (\<lambda>h. timestamp h \<ge> c) h = [] then None
                      else Some (filter (\<lambda>h. timestamp h \<ge> c) h))"
  using assms
proof (induction es arbitrary: m)
  case Nil
  then show ?case by simp
next
  case (Cons e es)
  obtain k' h' where e: "e = (k', h')" by (cases e)
  from Cons.prems e have d: "distinct (map fst es)" and n: "map_of es k' = None"
    by (auto simp add: map_of_eq_None_iff)
  show ?case
    using n by (simp add: e Cons.IH [OF d] pruneHistoryEntry_map_of split: option.splits)
qed

lemma fold_prune_distinct:
  "distinct (map fst m) \<Longrightarrow> distinct (map fst (fold (pruneHistoryEntry c) es m))"
  by (induction es arbitrary: m) (simp_all add: pruneHistoryEntry_distinct)

lemma alist_delete_filter: "AList.delete k m = filter (\<lambda>(k', a). k' \<noteq> k) m"
  by (induction m) auto

lemma evictSurgeEntry_pair:
  "evictSurgeEntry now (k', a') m =
    (if now - lastUpdated a' > 7200000 then filter (\<lambda>(k, a). k \<noteq> k') m else m)"
  by (simp add: evictSurgeEntry_def alist_delete_filter)

lemma fold_evict:
  "fold (evictSurgeEntry now) es m =
   filter (\<lambda>(k, a). \<not> (\<exists>a'. (k, a') \<in> set es \<and> now - lastUpdated a' > 7200000)) m"
proof (induction es arbitrary: m)
  case Nil
  then show ?case by simp
next
  case (Cons e es)
  obtain k' a' where e: "e = (k', a')" by (cases e)
  have "fold (evictSurgeEntry now) (e # es) m = fold (evictSurgeEntry now) es (evictSurgeEntry now (k', a') m)"
    by (simp add: e)
  also have "\<dots> = filter (\<lambda>(k, a). \<not> (\<exists>a'. (k, a') \<in> set es \<and> now - lastUpdated a' > 7200000))
                      (evictSurgeEntry now (k', a') m)"
    by (rule Cons.IH)
  also have "\<dots> = filter (\<lambda>(k, a). \<not> (\<exists>a'. (k, a') \<in> set (e # es) \<and> now - lastUpdated a' > 7200000)) m"
    unfolding evictSurgeEntry_pair e by (auto intro!: filter_cong)
  finally show ?case .
qed

lemma fold_evict_self:
  assumes "distinct (map fst m)"
  shows "fold (evictSurgeEntry now) m m = filter (\<lambda>(k, a). \<not> now - lastUpdated a > 7200000) m"
proof -
  have "(\<exists>a'. (k, a') \<in> set m \<and> now - lastUpdated a' > 7200000) \<longleftrightarrow> now - lastUpdated a > 7200000"
    if "(k, a) \<in> set m" for k a
    using that assms by (metis eq_key_imp_eq_value)
  then show ?thesis unfolding fold_evict by (intro filter_cong) auto
qed

lemma cleanup_skip: "now - lastCleanup s < 3600000 \<Longrightarrow> cleanupOldHistory now s = s"
  by (simp add: cleanupOldHistory_def CLEANUP_INTERVAL_def)

lemma cleanup_run:
  assumes "\<not> now - lastCleanup s < 3600000"
  shows "lastCleanup (cleanupOldHistory now s) = now"
    and "distinct (map fst (activityHistory s)) \<Longrightarrow>
         map_of (activityHistory (cleanupOldHistory now s)) k =
          (case map_of (activityHistory s) k of
             None \<Rightarrow> None
           | Some h \<Rightarrow> if filter (\<lambda>h. timestamp h \<ge> now - 259200000) h = [] then None
                       else Some (filter (\<lambda>h. timestamp h \<ge> now - 259200000) h))"
    and "distinct (map fst (activeSurges s)) \<Longrightarrow>
         activeSurges (cleanupOldHistory now s) =
           filter (\<lambda>(k, a). \<not> now - lastUpdated a > 7200000) (activeSurges s)"
  using assms
  by (simp_all add: cleanupOldHistory_def CLEANUP_INTERVAL_def MAX_HISTORY_HOURS_def Let_def
      fold_prune_map_of fold_evict_self split: option.splits)

lemma cleanup_distinct_history:
  "distinct (map fst (activityHistory s)) \<Longrightarrow> distinct (map fst (activityHistory (cleanupOldHistory now s)))"
  by (simp add: cleanupOldHistory_def Let_def fold_prune_distinct)

lemma cleanup_surges_filter:
  "\<exists>R. activeSurges (cleanupOldHistory now s) = filter R (activeSurges s)"
proof (cases "now - lastCleanup s < CLEANUP_INTERVAL")
  case True
  then have "activeSurges (cleanupOldHistory now s) = filter (\<lambda>_. True) (activeSurges s)"
    by (simp add: cleanupOldHistory_def)
  then show ?thesis by blast
next
  case False
  then show ?thesis by (auto simp add: cleanupOldHistory_def Let_def fold_evict)
qed

lemma cleanup_alerts_inv: "alerts_inv s \<Longrightarrow> alerts_inv (cleanupOldHistory now s)"
proof -
  assume a: "alerts_inv s"
  obtain R where R: "activeSurges (cleanupOldHistory now s) = filter R (activeSurges s)"
    using cleanup_surges_filter by blast
  show ?thesis using a unfolding alerts_inv_def R
    by (auto simp add: distinct_map_filter list_all_iff)
qed

lemma cleanup_history_inv: "history_inv s \<Longrightarrow> history_inv (cleanupOldHistory now s)"
proof (cases "now - lastCleanup s < 3600000")
  case True
  then show "history_inv s \<Longrightarrow> ?thesis" by (simp add: cleanup_skip)
next
  case False
  assume h: "history_inv s"
  then have d: "distinct (map fst (activityHistory s))" by (simp add: history_inv_def)
  have d': "distinct (map fst (activityHistory (cleanupOldHistory now s)))"
    by (rule cleanup_distinct_history [OF d])
  have "length l \<le> 200" if "(k, l) \<in> set (activityHistory (cleanupOldHistory now s))" for k l
  proof -
    from that d' have "map_of (activityHistory (cleanupOldHistory now s)) k = Some l" by simp
    then obtain l0 where l0: "map_of (activityHistory s) k = Some l0"
      and l: "l = filter (\<lambda>h. timestamp h \<ge> now - 259200000) l0"
      unfolding cleanup_run(2) [OF False d] by (auto split: option.splits if_splits)
    from l0 have "(k, l0) \<in> set (activityHistory s)" by (rule map_of_SomeD)
    with h have "length l0 \<le> 200" by (auto simp add: history_inv_def list_all_iff)
    then show ?thesis unfolding l using length_filter_le [of _ l0] by (meson order_trans)
  qed
  with d' show ?thesis by (auto simp add: history_inv_def list_all_iff)
qed

section \<open>Invariants of the reachable states\<close>

lemma list_all_update:
  "list_all Q m \<Longrightarrow> Q (k, v) \<Longrightarrow> list_all Q (AList.update k v m)"
  using set_update_subset [of k v m] by (auto simp add: list_all_iff)

lemma pushHistory_length: "length h \<le> 200 \<Longrightarrow> length (pushHistory a h) \<le> 200"
  by (simp add: pushHistory_def Let_def)

lemma getHistory_length:
  "list_all (\<lambda>e. length (snd e) \<le> 200) m \<Longrightarrow> length (getHistory m k) \<le> 200"
  by (auto simp add: getHistory_def list_all_iff split: option.splits dest!: map_of_SomeD)

lemma recordActivity_history_inv: "history_inv s \<Longrightarrow> history_inv (recordActivity k a s)"
  by (simp add: history_inv_def recordActivity_def distinct_update list_all_update
      pushHistory_length getHistory_length)

lemma detectAirlift_alerts_inv:
  assumes "alerts_inv (fst sn)" "id_t th = k"
  shows "alerts_inv (fst (detectAirlift now th k c b sn))"
proof -
  obtain s acc where sn: "sn = (s, acc)" by (cases sn)
  from assms(1) have d: "distinct (map fst (activeSurges s))" and l: "list_all alert_key_ok (activeSurges s)"
    by (simp_all add: alerts_inv_def sn)
  show ?thesis
  proof (cases "map_of (activeSurges s) (airliftId k)")
    case None
    then show ?thesis
      using d l assms(2)
      by (simp add: sn detectAirlift_def alerts_inv_def Let_def distinct_update list_all_update
          alert_key_ok_def)
  next
    case (Some ex)
    then have "(airliftId k, ex) \<in> set (activeSurges s)" by (rule map_of_SomeD)
    with l have "alert_key_ok (airliftId k, ex)" by (auto simp add: list_all_iff)
    then have "alert_key_ok (airliftId k, ex\<lparr>currentCount := n, surgeMultiple := m,
        aircraftTypes := ts, nearbyBases := bs, lastUpdated := now\<rparr>)" for n m ts bs
      by (simp add: alert_key_ok_def)
    then show ?thesis
      using d l Some
      by (simp add: sn detectAirlift_def alerts_inv_def Let_def distinct_update list_all_update)
  qed
qed

lemma detectFighter_alerts_inv:
  assumes "alerts_inv (fst sn)" "id_t th = k"
  shows "alerts_inv (fst (detectFighter now th k c b sn))"
proof -
  obtain s acc where sn: "sn = (s, acc)" by (cases sn)
  from assms(1) have d: "distinct (map fst (activeSurges s))" and l: "list_all alert_key_ok (activeSurges s)"
    by (simp_all add: alerts_inv_def sn)
  show ?thesis
    using d l assms(2)
    by (simp add: sn detectFighter_def alerts_inv_def Let_def distinct_update list_all_update
        alert_key_ok_def)
qed

lemma find_id: "find (\<lambda>t. id_t t = k) ts = Some th \<Longrightarrow> id_t th = k"
  by (auto simp add: find_Some_iff)

lemma processTheater_inv:
  assumes "history_inv (fst sn)" "alerts_inv (fst sn)"
  shows "history_inv (fst (processTheater now bases g sn))"
    and "alerts_inv (fst (processTheater now bases g sn))"
proof -
  obtain k fl where g: "g = (k, fl)" by (cases g)
  obtain s acc where sn: "sn = (s, acc)" by (cases sn)
  have "history_inv (fst (processTheater now bases g sn)) \<and> alerts_inv (fst (processTheater now bases g sn))"
  proof (cases "find (\<lambda>t. id_t t = k) THEATERS")
    case None
    then show ?thesis using assms by (simp add: g processTheater_None)
  next
    case (Some th)
    let ?c = "tallyFlights bases fl"
    let ?r = "recordActivity k (mkActivity now k fl ?c) s"
    let ?b = "calculateBaseline now ?r k"
    have h: "history_inv ?r" using assms(1) by (simp add: sn recordActivity_history_inv)
    have a: "alerts_inv (fst (?r, acc))" using assms(2) by (simp add: sn alerts_inv_def recordActivity_simps)
    have 1: "history_inv (fst (detectFighter now th k ?c ?b (detectAirlift now th k ?c ?b (?r, acc))))"
      using h by (simp add: history_inv_def detectFighter_frame detectAirlift_frame)
    have 2: "alerts_inv (fst (detectFighter now th k ?c ?b (detectAirlift now th k ?c ?b (?r, acc))))"
      by (intro detectFighter_alerts_inv detectAirlift_alerts_inv a find_id [OF Some])
    from 1 2 show ?thesis by (simp add: g sn processTheater_Some [OF Some])
  qed
  then show "history_inv (fst (processTheater now bases g sn))"
    and "alerts_inv (fst (processTheater now bases g sn))" by simp_all
qed

lemma fold_processTheater_inv:
  "history_inv (fst sn) \<Longrightarrow> alerts_inv (fst sn) \<Longrightarrow>
   history_inv (fst (fold (processTheater now bases) gs sn)) \<and>
   alerts_inv (fst (fold (processTheater now bases) gs sn))"
  by (induction gs arbitrary: sn) (simp_all add: processTheater_inv)

lemma analyze_inv:
  assumes "history_inv s" "alerts_inv s"
  shows "history_inv (snd (analyzeFlightsForSurge now bases flights s))"
    and "alerts_inv (snd (analyzeFlightsForSurge now bases flights s))"
  using fold_processTheater_inv [of "(cleanupOldHistory now s, [])" now bases "groupFlights bases flights"]
    cleanup_history_inv [OF assms(1), of now] cleanup_alerts_inv [OF assms(2), of now]
  by (simp_all add: analyze_snd)

lemma reachable_inv: "reachable s \<Longrightarrow> history_inv s \<and> alerts_inv s"
proof (induction rule: reachable.induct)
  case (init t0)
  show ?case by (simp add: initState_def history_inv_def alerts_inv_def)
next
  case (step s now bases flights)
  then show ?case by (simp add: analyze_inv)
qed

lemma distinct_map_filter_le1:
  "distinct (map f xs) \<Longrightarrow> length (filter (\<lambda>x. f x = v) xs) \<le> 1"
proof (induction xs)
  case Nil
  then show ?case by simp
next
  case (Cons x xs)
  show ?case
  proof (cases "f x = v")
    case True
    with Cons.prems have "filter (\<lambda>x. f x = v) xs = []"
      by (auto simp add: filter_empty_conv) (metis imageI)
    with True show ?thesis by simp
  next
    case False
    with Cons show ?thesis by simp
  qed
qed

lemma alerts_inv_pairs:
  assumes "alerts_inv s"
  shows "distinct (map (\<lambda>a. (type_a a, id_t (theater a))) (getActiveSurges s))"
proof -
  from assms have d: "distinct (map fst (activeSurges s))" and l: "list_all alert_key_ok (activeSurges s)"
    by (simp_all add: alerts_inv_def)
  have inj: "inj_on (\<lambda>e. (type_a (snd e), id_t (theater (snd e)))) (set (activeSurges s))"
  proof (rule inj_onI)
    fix x y assume x: "x \<in> set (activeSurges s)" and y: "y \<in> set (activeSurges s)"
      and e: "(type_a (snd x), id_t (theater (snd x))) = (type_a (snd y), id_t (theater (snd y)))"
    from l x y have "alert_key_ok x" "alert_key_ok y" by (auto simp add: list_all_iff)
    with e have "fst x = fst y" by (auto simp add: alert_key_ok_def)
    with d x y show "x = y" by (metis eq_key_imp_eq_value prod.collapse)
  qed
  from d have "distinct (activeSurges s)" by (simp add: distinct_map)
  with inj have "distinct (map (\<lambda>e. (type_a (snd e), id_t (theater (snd e)))) (activeSurges s))"
    by (simp add: distinct_map)
  then show ?thesis by (simp add: getActiveSurges_def comp_def)
qed

lemma distinct_map_filter_single:
  "distinct (map f xs) \<Longrightarrow> a \<in> set xs \<Longrightarrow> f a = v \<Longrightarrow> filter (\<lambda>x. f x = v) xs = [a]"
proof (induction xs)
  case Nil
  then show ?case by simp
next
  case (Cons x xs)
  show ?case
  proof (cases "x = a")
    case True
    with Cons.prems have "filter (\<lambda>x. f x = v) xs = []"
      by (auto simp add: filter_empty_conv) (metis imageI)
    with True Cons.prems show ?thesis by simp
  next
    case False
    with Cons.prems have m: "a \<in> set xs" and d: "distinct (map f xs)" and n: "f x \<noteq> v"
      by (auto simp: rev_image_eqI)
    from Cons.IH [OF d m Cons.prems(3)] n show ?thesis by simp
  qed
qed

lemma alerts_inv_airlift_entry:
  assumes "alerts_inv s" and "map_of (activeSurges s) (airliftId k) = Some a"
  shows "filter (\<lambda>a. (type_a a, id_t (theater a)) = (AirliftSurge, k)) (getActiveSurges s) = [a]"
    and "length (filter (\<lambda>e. fst e = airliftId k) (activeSurges s)) = 1"
proof -
  from assms(2) have m: "(airliftId k, a) \<in> set (activeSurges s)" by (rule map_of_SomeD)
  from assms(1) have d: "distinct (map fst (activeSurges s))" and l: "list_all alert_key_ok (activeSurges s)"
    by (simp_all add: alerts_inv_def)
  from l m have "alert_key_ok (airliftId k, a)" by (auto simp add: list_all_iff)
  then have t: "(type_a a, id_t (theater a)) = (AirliftSurge, k)"
    by (auto simp add: alert_key_ok_def)
  from m have "a \<in> set (getActiveSurges s)" by (force simp add: getActiveSurges_def)
  from distinct_map_filter_single [OF alerts_inv_pairs [OF assms(1)] this t]
  show "filter (\<lambda>a. (type_a a, id_t (theater a)) = (AirliftSurge, k)) (getActiveSurges s) = [a]" .
  from distinct_map_filter_single [OF d m, of "airliftId k"]
  show "length (filter (\<lambda>e. fst e = airliftId k) (activeSurges s)) = 1" by simp
qed

lemma map_of_groupFlights:
  "map_of (groupFlights bases flights) k = Some fl \<longleftrightarrow> (k, fl) \<in> set (groupFlights bases flights)"
  using groupFlights_distinct [of bases flights] by (auto dest: map_of_SomeD)

lemma analyze_history:
  "getTheaterActivity (snd (analyzeFlightsForSurge now bases flights s)) k =
    (case map_of (groupFlights bases flights) k of
       None \<Rightarrow> getTheaterActivity (cleanupOldHistory now s) k
     | Some fl \<Rightarrow>
         pushHistory (mkActivity now k fl (tallyFlights bases fl))
           (getTheaterActivity (cleanupOldHistory now s) k))"
proof (cases "map_of (groupFlights bases flights) k")
  case None
  then have "k \<notin> fst ` set (groupFlights bases flights)" by (simp add: map_of_eq_None_iff)
  from analyze_no_theater(1) [OF this, of now s] None show ?thesis
    by (simp add: theaterView_def getTheaterActivity_def getHistory_def)
next
  case (Some fl)
  then have g: "(k, fl) \<in> set (groupFlights bases flights)" by (simp add: map_of_groupFlights)
  from groupFlights_keys [of bases flights] g
  obtain th where th: "find (\<lambda>t. id_t t = k) THEATERS = Some th" by auto
  from analyze_theater_core(1) [OF g th, of now s] Some show ?thesis
    by (simp add: getTheaterActivity_def getHistory_def)
qed

lemma last_pushHistory: "last (pushHistory a h) = a"
  by (cases h) (simp_all add: pushHistory_def Let_def last_tl)

section \<open>Evaluation of the example data\<close>

lemma ex_resolve:
  "getTheaterForFlight [] (ex_flight 27 50) = Some (THEATERS ! 0)"
  "getTheaterForFlight [] (ex_fighter 27 50) = Some (THEATERS ! 0)"
  by (simp_all add: getTheaterForFlight_def findNearbyBases_def List.map_filter_def ex_flight_def
      ex_fighter_def THEATERS_def distanceKm_same)

lemma ex_id0: "id_t (THEATERS ! 0) = ''middle-east''"
  by (simp add: THEATERS_def)

lemma ex_find0: "find (\<lambda>t. id_t t = ''middle-east'') THEATERS = Some (THEATERS ! 0)"
  by (simp add: THEATERS_def)

lemma ex_groups:
  "groupFlights [] ex_transports = [(''middle-east'', ex_transports)]"
  "groupFlights [] ex_fighters = [(''middle-east'', ex_fighters)]"
  by (simp_all add: groupFlights_def ex_transports_def ex_fighters_def ex_resolve ex_id0)

lemma ex_classify:
  "classifyFlight (ex_flight la lo) = Transport"
  "classifyFlight (ex_fighter la lo) = Fighter"
  by (simp_all add: classifyFlight_def isTransportFlight_def ex_flight_def ex_fighter_def
      toUpperCase_def toUpperCase_char_def TRANSPORT_CALLSIGN_PATTERNS_def)

lemma ex_tally:
  "tallyFlights [] ex_transports =
     \<lparr>transportCount_c = 6, fighterCount_c = 0, reconCount_c = 0,
      aircraftTypes_c = [(''C17'', 6)], nearbyBasesSet = []\<rparr>"
  "tallyFlights [] ex_fighters =
     \<lparr>transportCount_c = 0, fighterCount_c = 4, reconCount_c = 0,
      aircraftTypes_c = [(''F16'', 4)], nearbyBasesSet = []\<rparr>"
  by (simp_all add: tallyFlights_def tallyFlight_def ex_transports_def ex_fighters_def ex_classify
      findNearbyBases_def List.map_filter_def Let_def)
     (simp_all add: ex_flight_def ex_fighter_def)

lemma ex_member:
  "(''middle-east'', ex_transports) \<in> set (groupFlights [] ex_transports)"
  "(''middle-east'', ex_fighters) \<in> set (groupFlights [] ex_fighters)"
  by (simp_all add: ex_groups)

lemma ex_skip:
  "cleanupOldHistory 1000 (initState 0) = initState 0"
  "cleanupOldHistory 1000 ex_state_fighter = ex_state_fighter"
  "cleanupOldHistory 1000 ex_state_airlift = ex_state_airlift"
  by (simp_all add: cleanup_skip initState_def ex_state_fighter_def ex_state_airlift_def)

lemma ex_history:
  "getTheaterActivity (snd (analyzeFlightsForSurge 1000 [] ex_transports (initState 0))) ''middle-east''
     = [mkActivity 1000 ''middle-east'' ex_transports (tallyFlights [] ex_transports)]"
  "getTheaterActivity (snd (analyzeFlightsForSurge 1000 [] ex_fighters ex_state_fighter)) ''middle-east''
     = [mkActivity 1000 ''middle-east'' ex_fighters (tallyFlights [] ex_fighters)]"
  "getTheaterActivity (snd (analyzeFlightsForSurge 1000 [] ex_transports ex_state_airlift)) ''middle-east''
     = [ex_activity 900 1, ex_activity 900 1, ex_activity 900 1,
        ex_activity 900 1, ex_activity 900 1, ex_activity 900 1,
        mkActivity 1000 ''middle-east'' ex_transports (tallyFlights [] ex_transports)]"
  by (simp_all only: analyze_history ex_groups ex_skip map_of.simps fst_conv snd_conv
        if_True option.case)
     (simp_all add: pushHistory_def getTheaterActivity_def getHistory_def initState_def
        ex_state_fighter_def ex_state_airlift_def)

lemma ex_baseline:
  "calculateBaseline 1000 (snd (analyzeFlightsForSurge 1000 [] ex_transports (initState 0))) ''middle-east''
     = \<lparr>transport = 3, fighter = 2, recon = 1\<rparr>"
  "calculateBaseline 1000 (snd (analyzeFlightsForSurge 1000 [] ex_fighters ex_state_fighter)) ''middle-east''
     = \<lparr>transport = 3, fighter = 2, recon = 1\<rparr>"
  "calculateBaseline 1000 (snd (analyzeFlightsForSurge 1000 [] ex_transports ex_state_airlift)) ''middle-east''
     = \<lparr>transport = 2, fighter = 1, recon = 1\<rparr>"
  unfolding calculateBaseline_def getTheaterActivity_def [symmetric] ex_history
  by (simp_all add: BASELINE_MIN_SAMPLES_def BASELINE_WINDOW_HOURS_def mkActivity_def ex_tally
      ex_activity_def)

lemma ex_reachable:
  "reachable (snd (analyzeFlightsForSurge 1000 [] ex_transports (initState 0)))"
  by (intro reachable.step reachable.init)

lemma ex_run1_alert:
  "map_of (activeSurges (snd (analyzeFlightsForSurge 1000 [] ex_transports (initState 0))))
     (airliftId ''middle-east'') \<noteq> None"
  unfolding analyze_theater_core(2) [OF ex_member(1) ex_find0] ex_baseline ex_tally
  by simp

lemma ex_skip2:
  "cleanupOldHistory 2000 (snd (analyzeFlightsForSurge 1000 [] ex_transports (initState 0))) =
     snd (analyzeFlightsForSurge 1000 [] ex_transports (initState 0))"
  by (rule cleanup_skip) (simp add: analyze_lastCleanup ex_skip, simp add: initState_def)

lemma ex_run1_alert_eq:
  "map_of (activeSurges (snd (analyzeFlightsForSurge 1000 [] ex_transports (initState 0))))
     (airliftId ''middle-east'') = Some (ex_alert (airliftId ''middle-east'') AirliftSurge 1000)"
proof -
  have pre: "map_of (activeSurges (cleanupOldHistory 1000 (initState 0))) (airliftId ''middle-east'') = None"
    by (simp only: ex_skip) (simp add: initState_def)
  show ?thesis
    unfolding analyze_theater_core(2) [OF ex_member(1) ex_find0] pre ex_baseline ex_tally
    by (simp add: ex_alert_def Math_round_def)
qed

lemma ex_history2:
  "getTheaterActivity (snd (analyzeFlightsForSurge 2000 [] ex_transports
        (snd (analyzeFlightsForSurge 1000 [] ex_transports (initState 0))))) ''middle-east''
     = [mkActivity 1000 ''middle-east'' ex_transports (tallyFlights [] ex_transports),
        mkActivity 2000 ''middle-east'' ex_transports (tallyFlights [] ex_transports)]"
  unfolding analyze_history [where now = 2000 and bases = "[]" and flights = ex_transports
      and s = "snd (analyzeFlightsForSurge 1000 [] ex_transports (initState 0))"
      and k = "''middle-east''"] ex_groups ex_skip2 ex_history
  by (simp add: pushHistory_def)

lemma ex_baseline2:
  "calculateBaseline 2000 (snd (analyzeFlightsForSurge 2000 [] ex_transports
        (snd (analyzeFlightsForSurge 1000 [] ex_transports (initState 0))))) ''middle-east''
     = \<lparr>transport = 3, fighter = 2, recon = 1\<rparr>"
  unfolding calculateBaseline_def getTheaterActivity_def [symmetric] ex_history2
  by (simp add: BASELINE_MIN_SAMPLES_def BASELINE_WINDOW_HOURS_def mkActivity_def)

section \<open>Surge detection and alert lifecycle\<close>

text \<open>
  Claim C1.  The analysis returns only alerts created in this cycle: each returned alert had
  no entry under its key after cleanup and is the entry under its key afterwards.  For a
  theater \<open>k\<close> with activity in the cycle, the airlift surge is detected exactly when the
  transport count is at least twice the transport baseline and at least 5; the baseline
  is the one the loop computes after appending the cycle's snapshot, which is also the
  baseline of the state the call leaves.  With no
  alert under \<open>airlift-k\<close>, a detected surge creates the alert, registers it and returns it
  (and nothing happens otherwise); with an alert under that key, a detected surge rewrites
  its count, multiple, histogram, nearby bases and last-updated time in place, and no alert
  with that key is returned.
\<close>

theorem analyze_airlift_surge:
  "(\<forall>a\<in>set (fst (analyzeFlightsForSurge now bases flights s)).
      map_of (activeSurges (cleanupOldHistory now s)) (id_a a) = None \<and>
      map_of (activeSurges (snd (analyzeFlightsForSurge now bases flights s))) (id_a a) = Some a)
   \<and> ((k, fl) \<in> set (groupFlights bases flights) \<longrightarrow>
       (let s0 = cleanupOldHistory now s;
            alerts = fst (analyzeFlightsForSurge now bases flights s);
            s' = snd (analyzeFlightsForSurge now bases flights s);
            c = tallyFlights bases fl;
            n = transportCount_c c;
            b = calculateBaseline now s' k;
            detected = (real n \<ge> transport b * 2 \<and> n \<ge> 5)
        in b = calculateBaseline now (recordActivity k (mkActivity now k fl c) s0) k \<and>
           (case map_of (activeSurges s0) (airliftId k) of
             None \<Rightarrow>
               if detected
               then \<exists>th. find (\<lambda>t. id_t t = k) THEATERS = Some th \<and>
                      (let alert = \<lparr>id_a = airliftId k, theater = th, type_a = AirliftSurge,
                                    currentCount = n, baselineCount = Math_round (transport b),
                                    surgeMultiple = real n / transport b,
                                    aircraftTypes = aircraftTypes_c c,
                                    nearbyBases = nearbyBasesSet c,
                                    firstDetected = now, lastUpdated = now\<rparr>
                       in map_of (activeSurges s') (airliftId k) = Some alert \<and>
                          filter (\<lambda>a. id_a a = airliftId k) alerts = [alert])
               else map_of (activeSurges s') (airliftId k) = None \<and>
                    filter (\<lambda>a. id_a a = airliftId k) alerts = []
           | Some existing \<Rightarrow>
               map_of (activeSurges s') (airliftId k) =
                 Some (if detected
                       then existing\<lparr>currentCount := n,
                                     surgeMultiple := real n / transport b,
                                     aircraftTypes := aircraftTypes_c c,
                                     nearbyBases := nearbyBasesSet c,
                                     lastUpdated := now\<rparr>
                       else existing) \<and>
               filter (\<lambda>a. id_a a = airliftId k) alerts = [])))"
proof (intro conjI impI ballI)
  fix a assume "a \<in> set (fst (analyzeFlightsForSurge now bases flights s))"
  from analyze_alerts_new [OF this]
  show "map_of (activeSurges (cleanupOldHistory now s)) (id_a a) = None"
    and "map_of (activeSurges (snd (analyzeFlightsForSurge now bases flights s))) (id_a a) = Some a"
    by simp_all
next
  assume g: "(k, fl) \<in> set (groupFlights bases flights)"
  from groupFlights_keys [of bases flights] g
  obtain th where th: "find (\<lambda>t. id_t t = k) THEATERS = Some th" by auto
  note core = analyze_theater_core [OF g th, of now s]
  show "let s0 = cleanupOldHistory now s;
            alerts = fst (analyzeFlightsForSurge now bases flights s);
            s' = snd (analyzeFlightsForSurge now bases flights s);
            c = tallyFlights bases fl;
            n = transportCount_c c;
            b = calculateBaseline now s' k;
            detected = (real n \<ge> transport b * 2 \<and> n \<ge> 5)
        in b = calculateBaseline now (recordActivity k (mkActivity now k fl c) s0) k \<and>
           (case map_of (activeSurges s0) (airliftId k) of
             None \<Rightarrow>
               if detected
               then \<exists>th. find (\<lambda>t. id_t t = k) THEATERS = Some th \<and>
                      (let alert = \<lparr>id_a = airliftId k, theater = th, type_a = AirliftSurge,
                                    currentCount = n, baselineCount = Math_round (transport b),
                                    surgeMultiple = real n / transport b,
                                    aircraftTypes = aircraftTypes_c c,
                                    nearbyBases = nearbyBasesSet c,
                                    firstDetected = now, lastUpdated = now\<rparr>
                       in map_of (activeSurges s') (airliftId k) = Some alert \<and>
                          filter (\<lambda>a. id_a a = airliftId k) alerts = [alert])
               else map_of (activeSurges s') (airliftId k) = None \<and>
                    filter (\<lambda>a. id_a a = airliftId k) alerts = []
           | Some existing \<Rightarrow>
               map_of (activeSurges s') (airliftId k) =
                 Some (if detected
                       then existing\<lparr>currentCount := n,
                                     surgeMultiple := real n / transport b,
                                     aircraftTypes := aircraftTypes_c c,
                                     nearbyBases := nearbyBasesSet c,
                                     lastUpdated := now\<rparr>
                       else existing) \<and>
               filter (\<lambda>a. id_a a = airliftId k) alerts = [])"
    unfolding Let_def
    by (cases "map_of (activeSurges (cleanupOldHistory now s)) (airliftId k)")
       (simp_all add: core(2) core(3) core(6) [symmetric] th)
qed

theorem analyze_airlift_surge_witness:
  "(''middle-east'', ex_transports) \<in> set (groupFlights [] ex_transports) \<and>
   map_of (activeSurges (cleanupOldHistory 1000 (initState 0))) (airliftId ''middle-east'') = None \<and>
   map_of (activeSurges (snd (analyzeFlightsForSurge 1000 [] ex_transports (initState 0))))
     (airliftId ''middle-east'') = Some (ex_alert (airliftId ''middle-east'') AirliftSurge 1000) \<and>
   filter (\<lambda>a. id_a a = airliftId ''middle-east'')
     (fst (analyzeFlightsForSurge 1000 [] ex_transports (initState 0)))
     = [ex_alert (airliftId ''middle-east'') AirliftSurge 1000]"
proof -
  have pre: "map_of (activeSurges (cleanupOldHistory 1000 (initState 0))) (airliftId ''middle-east'') = None"
    by (simp only: ex_skip) (simp add: initState_def)
  from analyze_airlift_surge [of 1000 "[]" ex_transports "initState 0" "''middle-east''" ex_transports,
      THEN conjunct2, THEN mp, OF ex_member(1)]
  have "map_of (activeSurges (snd (analyzeFlightsForSurge 1000 [] ex_transports (initState 0))))
     (airliftId ''middle-east'') = Some (ex_alert (airliftId ''middle-east'') AirliftSurge 1000) \<and>
   filter (\<lambda>a. id_a a = airliftId ''middle-east'')
     (fst (analyzeFlightsForSurge 1000 [] ex_transports (initState 0)))
     = [ex_alert (airliftId ''middle-east'') AirliftSurge 1000]"
    unfolding Let_def pre ex_baseline ex_tally
    by (simp add: ex_find0 ex_alert_def Math_round_def)
  with pre ex_member(1) show ?thesis by simp
qed

text \<open>
  Claim C5.  For a theater \<open>k\<close> with activity in the cycle, the fighter surge is detected
  exactly when the fighter count is at least twice the fighter baseline and at least 4.
  An alert already under \<open>fighter-k\<close> is left as it is and nothing is returned for it; with
  no such alert, a detected surge creates, registers and returns one.  The airlift block, in
  contrast, refreshes an existing alert: its count and last-updated time are the cycle's.
\<close>

theorem analyze_fighter_surge:
  assumes "(k, fl) \<in> set (groupFlights bases flights)"
  shows
   "let s0 = cleanupOldHistory now s;
        alerts = fst (analyzeFlightsForSurge now bases flights s);
        s' = snd (analyzeFlightsForSurge now bases flights s);
        c = tallyFlights bases fl;
        n = fighterCount_c c;
        b = calculateBaseline now s' k;
        detected = (real n \<ge> fighter b * 2 \<and> n \<ge> 4)
    in (case map_of (activeSurges s0) (fighterId k) of
          Some existing \<Rightarrow>
            map_of (activeSurges s') (fighterId k) = Some existing \<and>
            filter (\<lambda>a. id_a a = fighterId k) alerts = []
        | None \<Rightarrow>
            if detected
            then \<exists>th. find (\<lambda>t. id_t t = k) THEATERS = Some th \<and>
                   (let alert = \<lparr>id_a = fighterId k, theater = th, type_a = FighterSurge,
                                 currentCount = n, baselineCount = Math_round (fighter b),
                                 surgeMultiple = real n / fighter b,
                                 aircraftTypes = aircraftTypes_c c,
                                 nearbyBases = nearbyBasesSet c,
                                 firstDetected = now, lastUpdated = now\<rparr>
                    in map_of (activeSurges s') (fighterId k) = Some alert \<and>
                       filter (\<lambda>a. id_a a = fighterId k) alerts = [alert])
            else map_of (activeSurges s') (fighterId k) = None \<and>
                 filter (\<lambda>a. id_a a = fighterId k) alerts = [])
       \<and> (case map_of (activeSurges s0) (airliftId k) of
            Some existing \<Rightarrow>
              real (transportCount_c c) \<ge> transport b * 2 \<and> transportCount_c c \<ge> 5 \<longrightarrow>
                map_option lastUpdated (map_of (activeSurges s') (airliftId k)) = Some now \<and>
                map_option currentCount (map_of (activeSurges s') (airliftId k))
                  = Some (transportCount_c c)
          | None \<Rightarrow> True)"
proof -
  from groupFlights_keys [of bases flights] assms
  obtain th where th: "find (\<lambda>t. id_t t = k) THEATERS = Some th" by auto
  note core = analyze_theater_core [OF assms th, of now s]
  show ?thesis
    unfolding Let_def
    by (cases "map_of (activeSurges (cleanupOldHistory now s)) (fighterId k)";
        cases "map_of (activeSurges (cleanupOldHistory now s)) (airliftId k)")
       (simp_all add: core(2) core(4) core(5) th)
qed

theorem analyze_fighter_surge_witness:
  "(''middle-east'', ex_fighters) \<in> set (groupFlights [] ex_fighters) \<and>
   real (fighterCount_c (tallyFlights [] ex_fighters))
     \<ge> fighter (calculateBaseline 1000 (snd (analyzeFlightsForSurge 1000 [] ex_fighters ex_state_fighter))
                  ''middle-east'') * 2 \<and>
   map_of (activeSurges (cleanupOldHistory 1000 ex_state_fighter)) (fighterId ''middle-east'')
     = Some (ex_alert (fighterId ''middle-east'') FighterSurge 500) \<and>
   map_of (activeSurges (snd (analyzeFlightsForSurge 1000 [] ex_fighters ex_state_fighter)))
     (fighterId ''middle-east'') = Some (ex_alert (fighterId ''middle-east'') FighterSurge 500) \<and>
   filter (\<lambda>a. id_a a = fighterId ''middle-east'')
     (fst (analyzeFlightsForSurge 1000 [] ex_fighters ex_state_fighter)) = []"
proof -
  have pre: "map_of (activeSurges (cleanupOldHistory 1000 ex_state_fighter)) (fighterId ''middle-east'')
     = Some (ex_alert (fighterId ''middle-east'') FighterSurge 500)"
    by (simp only: ex_skip) (simp add: ex_state_fighter_def)
  from analyze_fighter_surge [OF ex_member(2), of 1000 ex_state_fighter, unfolded Let_def,
      THEN conjunct1]
  have "map_of (activeSurges (snd (analyzeFlightsForSurge 1000 [] ex_fighters ex_state_fighter)))
     (fighterId ''middle-east'') = Some (ex_alert (fighterId ''middle-east'') FighterSurge 500) \<and>
   filter (\<lambda>a. id_a a = fighterId ''middle-east'')
     (fst (analyzeFlightsForSurge 1000 [] ex_fighters ex_state_fighter)) = []"
    unfolding pre by simp
  with pre ex_member(2) show ?thesis by (simp add: ex_baseline ex_tally)
qed

text \<open>
  Claim C10.  When the airlift block updates an existing alert, the alert keeps its id,
  theater, type, first-detected time and baseline count; the count, the histogram, the
  nearby bases and the last-updated time are the cycle's, and the new surge multiple is
  the count divided by the cycle's transport baseline.
\<close>

theorem airlift_update_frame:
  assumes "(k, fl) \<in> set (groupFlights bases flights)"
    and "map_of (activeSurges (cleanupOldHistory now s)) (airliftId k) = Some existing"
    and "real (transportCount_c (tallyFlights bases fl))
           \<ge> transport (calculateBaseline now (snd (analyzeFlightsForSurge now bases flights s)) k) * 2"
    and "transportCount_c (tallyFlights bases fl) \<ge> 5"
  shows "\<exists>a. map_of (activeSurges (snd (analyzeFlightsForSurge now bases flights s))) (airliftId k) = Some a \<and>
             id_a a = id_a existing \<and> theater a = theater existing \<and> type_a a = type_a existing \<and>
             firstDetected a = firstDetected existing \<and> baselineCount a = baselineCount existing \<and>
             currentCount a = transportCount_c (tallyFlights bases fl) \<and>
             surgeMultiple a = real (transportCount_c (tallyFlights bases fl))
               / transport (calculateBaseline now (snd (analyzeFlightsForSurge now bases flights s)) k) \<and>
             aircraftTypes a = aircraftTypes_c (tallyFlights bases fl) \<and>
             nearbyBases a = nearbyBasesSet (tallyFlights bases fl) \<and>
             lastUpdated a = now"
proof -
  from groupFlights_keys [of bases flights] assms(1)
  obtain th where th: "find (\<lambda>t. id_t t = k) THEATERS = Some th" by auto
  note core = analyze_theater_core [OF assms(1) th, of now s]
  show ?thesis using assms(2-4) by (simp add: core(2))
qed

theorem airlift_update_frame_witness:
  "(''middle-east'', ex_transports) \<in> set (groupFlights [] ex_transports) \<and>
   map_of (activeSurges (cleanupOldHistory 1000 ex_state_airlift)) (airliftId ''middle-east'')
     = Some (ex_alert (airliftId ''middle-east'') AirliftSurge 500) \<and>
   Math_round (transport (calculateBaseline 1000
     (snd (analyzeFlightsForSurge 1000 [] ex_transports ex_state_airlift)) ''middle-east'')) = 2 \<and>
   map_of (activeSurges (snd (analyzeFlightsForSurge 1000 [] ex_transports ex_state_airlift)))
     (airliftId ''middle-east'')
     = Some \<lparr>id_a = airliftId ''middle-east'', theater = THEATERS ! 0, type_a = AirliftSurge,
             currentCount = 6, baselineCount = 3, surgeMultiple = 3,
             aircraftTypes = [(''C17'', 6)], nearbyBases = [],
             firstDetected = 500, lastUpdated = 1000\<rparr>"
proof -
  have pre: "map_of (activeSurges (cleanupOldHistory 1000 ex_state_airlift)) (airliftId ''middle-east'')
     = Some (ex_alert (airliftId ''middle-east'') AirliftSurge 500)"
    by (simp only: ex_skip) (simp add: ex_state_airlift_def)
  have det: "real (transportCount_c (tallyFlights [] ex_transports))
           \<ge> transport (calculateBaseline 1000
                (snd (analyzeFlightsForSurge 1000 [] ex_transports ex_state_airlift)) ''middle-east'') * 2"
    "transportCount_c (tallyFlights [] ex_transports) \<ge> 5"
    by (simp_all add: ex_baseline ex_tally)
  from airlift_update_frame [OF ex_member(1) pre det]
  obtain a where a: "map_of (activeSurges (snd (analyzeFlightsForSurge 1000 [] ex_transports ex_state_airlift)))
       (airliftId ''middle-east'') = Some a"
    and f: "id_a a = id_a (ex_alert (airliftId ''middle-east'') AirliftSurge 500)"
      "theater a = theater (ex_alert (airliftId ''middle-east'') AirliftSurge 500)"
      "type_a a = type_a (ex_alert (airliftId ''middle-east'') AirliftSurge 500)"
      "firstDetected a = firstDetected (ex_alert (airliftId ''middle-east'') AirliftSurge 500)"
      "baselineCount a = baselineCount (ex_alert (airliftId ''middle-east'') AirliftSurge 500)"
      "currentCount a = transportCount_c (tallyFlights [] ex_transports)"
      "surgeMultiple a = real (transportCount_c (tallyFlights [] ex_transports))
         / transport (calculateBaseline 1000
             (snd (analyzeFlightsForSurge 1000 [] ex_transports ex_state_airlift)) ''middle-east'')"
      "aircraftTypes a = aircraftTypes_c (tallyFlights [] ex_transports)"
      "nearbyBases a = nearbyBasesSet (tallyFlights [] ex_transports)"
      "lastUpdated a = 1000"
    by blast
  have "a = \<lparr>id_a = airliftId ''middle-east'', theater = THEATERS ! 0, type_a = AirliftSurge,
             currentCount = 6, baselineCount = 3, surgeMultiple = 3,
             aircraftTypes = [(''C17'', 6)], nearbyBases = [],
             firstDetected = 500, lastUpdated = 1000\<rparr>"
    using f by (cases a) (simp add: ex_alert_def ex_baseline ex_tally)
  with a pre ex_member(1) show ?thesis by (simp add: ex_baseline Math_round_def)
qed

text \<open>
  Claim C6.  Cleanup does nothing while less than one hour (3600000 ms) has passed since
  the last cleanup.  When it runs it records the time, keeps of every history exactly the
  entries at most 72 hours (259200000 ms) old, removes the histories that become empty, and
  keeps exactly the alerts updated at most 2 hours (7200000 ms) ago; an analysis call less
  than an hour after a call that ran cleanup does not run it again.  The keys of the two
  maps are distinct, as they are in every reachable state.
\<close>

theorem cleanupOldHistory_gated:
  assumes "distinct (map fst (activityHistory s))" and "distinct (map fst (activeSurges s))"
  shows "(now - lastCleanup s < 3600000 \<longrightarrow> cleanupOldHistory now s = s)
    \<and> (now - lastCleanup s \<ge> 3600000 \<longrightarrow>
         lastCleanup (cleanupOldHistory now s) = now
       \<and> (\<forall>k. map_of (activityHistory (cleanupOldHistory now s)) k =
               (case map_of (activityHistory s) k of
                  None \<Rightarrow> None
                | Some h \<Rightarrow> if filter (\<lambda>e. timestamp e \<ge> now - 259200000) h = [] then None
                            else Some (filter (\<lambda>e. timestamp e \<ge> now - 259200000) h)))
       \<and> (\<forall>k. getTheaterActivity (cleanupOldHistory now s) k =
               filter (\<lambda>e. timestamp e \<ge> now - 259200000) (getTheaterActivity s k))
       \<and> getActiveSurges (cleanupOldHistory now s) =
           filter (\<lambda>a. now - lastUpdated a \<le> 7200000) (getActiveSurges s)
       \<and> (\<forall>t2. t2 - now < 3600000 \<longrightarrow>
             cleanupOldHistory t2 (snd (analyzeFlightsForSurge now bases flights s))
               = snd (analyzeFlightsForSurge now bases flights s)))"
proof (intro conjI impI allI)
  assume "now - lastCleanup s < 3600000"
  then show "cleanupOldHistory now s = s" by (rule cleanup_skip)
next
  assume "3600000 \<le> now - lastCleanup s"
  then have r: "\<not> now - lastCleanup s < 3600000" by simp
  show lc: "lastCleanup (cleanupOldHistory now s) = now" by (rule cleanup_run(1) [OF r])
  show m: "map_of (activityHistory (cleanupOldHistory now s)) k =
               (case map_of (activityHistory s) k of
                  None \<Rightarrow> None
                | Some h \<Rightarrow> if filter (\<lambda>e. timestamp e \<ge> now - 259200000) h = [] then None
                            else Some (filter (\<lambda>e. timestamp e \<ge> now - 259200000) h))" for k
    by (rule cleanup_run(2) [OF r assms(1)])
  show "getTheaterActivity (cleanupOldHistory now s) k =
               filter (\<lambda>e. timestamp e \<ge> now - 259200000) (getTheaterActivity s k)" for k
    by (simp add: getTheaterActivity_def getHistory_def m split: option.splits)
  have "map snd (filter (\<lambda>(k, a). \<not> now - lastUpdated a > 7200000) m) =
        filter (\<lambda>a. now - lastUpdated a \<le> 7200000) (map snd m)" for m :: "(string \<times> SurgeAlert) list"
    by (induction m) auto
  then show "getActiveSurges (cleanupOldHistory now s) =
           filter (\<lambda>a. now - lastUpdated a \<le> 7200000) (getActiveSurges s)"
    by (simp add: getActiveSurges_def cleanup_run(3) [OF r assms(2)])
  fix t2 :: int
  assume "t2 - now < 3600000"
  then show "cleanupOldHistory t2 (snd (analyzeFlightsForSurge now bases flights s))
               = snd (analyzeFlightsForSurge now bases flights s)"
    by (intro cleanup_skip) (simp add: analyze_lastCleanup lc)
qed

theorem cleanupOldHistory_gated_witness:
  "distinct (map fst (activityHistory ex_state)) \<and> distinct (map fst (activeSurges ex_state)) \<and>
   cleanupOldHistory 3000000 ex_state = ex_state \<and>
   3600000 \<le> 300000000 - lastCleanup ex_state \<and>
   getTheaterActivity (cleanupOldHistory 300000000 ex_state) ''middle-east'' = [ex_activity 300000000 1] \<and>
   map_of (activityHistory (cleanupOldHistory 300000000 ex_state)) ''europe-east'' = None \<and>
   getActiveSurges (cleanupOldHistory 300000000 ex_state) =
     [ex_alert (fighterId ''middle-east'') FighterSurge 299000000]"
proof -
  have d1: "distinct (map fst (activityHistory ex_state))" by (simp add: ex_state_def)
  have d2: "distinct (map fst (activeSurges ex_state))" by (simp add: ex_state_def)
  have a: "cleanupOldHistory 3000000 ex_state = ex_state"
    by (rule cleanupOldHistory_gated [OF d1 d2, of 3000000, THEN conjunct1, THEN mp])
       (simp add: ex_state_def)
  have r: "3600000 \<le> 300000000 - lastCleanup ex_state" by (simp add: ex_state_def)
  note run = cleanupOldHistory_gated [OF d1 d2, of 300000000 "[]" "[]", THEN conjunct2, THEN mp, OF r]
  from run have b: "getTheaterActivity (cleanupOldHistory 300000000 ex_state) ''middle-east'' =
      filter (\<lambda>e. timestamp e \<ge> 300000000 - 259200000) (getTheaterActivity ex_state ''middle-east'')"
    by blast
  from run have c: "map_of (activityHistory (cleanupOldHistory 300000000 ex_state)) ''europe-east'' =
      (case map_of (activityHistory ex_state) ''europe-east'' of
                  None \<Rightarrow> None
                | Some h \<Rightarrow> if filter (\<lambda>e. timestamp e \<ge> 300000000 - 259200000) h = [] then None
                            else Some (filter (\<lambda>e. timestamp e \<ge> 300000000 - 259200000) h))"
    by blast
  from run have d: "getActiveSurges (cleanupOldHistory 300000000 ex_state) =
           filter (\<lambda>a. 300000000 - lastUpdated a \<le> 7200000) (getActiveSurges ex_state)"
    by blast
  show ?thesis
    unfolding b c d
    by (simp add: d1 d2 a r)
       (simp add: ex_state_def getTheaterActivity_def getHistory_def getActiveSurges_def
          ex_activity_def ex_alert_def)
qed

text \<open>
  Claim C7.  In every reachable state the keys of the alert map are distinct, every alert
  sits under the key of its type and theater, and so at most one alert exists for each
  pair of type and theater; cleanup and analysis keep this, and the queries do not change
  the state.  When the airlift condition triggers again for a theater that has an airlift
  alert, the one airlift alert of the theater afterwards is the existing alert with its
  count, multiple, histogram, nearby bases and last-updated time rewritten: the map has one
  entry under the key, and no alert with that key is returned as new.
\<close>

theorem one_alert_per_type_and_theater:
  assumes "reachable s"
  shows "distinct (map fst (activeSurges s))
       \<and> list_all alert_key_ok (activeSurges s)
       \<and> distinct (map (\<lambda>a. (type_a a, id_t (theater a))) (getActiveSurges s))
       \<and> length (filter (\<lambda>a. (type_a a, id_t (theater a)) = (ty, k)) (getActiveSurges s)) \<le> 1
       \<and> alerts_inv (cleanupOldHistory now s)
       \<and> alerts_inv (snd (analyzeFlightsForSurge now bases flights s))
       \<and> length (filter (\<lambda>a. (type_a a, id_t (theater a)) = (ty, k))
            (getActiveSurges (snd (analyzeFlightsForSurge now bases flights s)))) \<le> 1
       \<and> (\<forall>existing.
            (k, fl) \<in> set (groupFlights bases flights) \<and>
            map_of (activeSurges (cleanupOldHistory now s)) (airliftId k) = Some existing \<and>
            real (transportCount_c (tallyFlights bases fl))
              \<ge> transport (calculateBaseline now (snd (analyzeFlightsForSurge now bases flights s)) k) * 2 \<and>
            transportCount_c (tallyFlights bases fl) \<ge> 5
            \<longrightarrow>
              filter (\<lambda>a. (type_a a, id_t (theater a)) = (AirliftSurge, k))
                (getActiveSurges (snd (analyzeFlightsForSurge now bases flights s)))
               = [existing\<lparr>currentCount := transportCount_c (tallyFlights bases fl),
                            surgeMultiple := real (transportCount_c (tallyFlights bases fl))
                              / transport (calculateBaseline now
                                  (snd (analyzeFlightsForSurge now bases flights s)) k),
                            aircraftTypes := aircraftTypes_c (tallyFlights bases fl),
                            nearbyBases := nearbyBasesSet (tallyFlights bases fl),
                            lastUpdated := now\<rparr>]
            \<and> length (filter (\<lambda>e. fst e = airliftId k)
                  (activeSurges (snd (analyzeFlightsForSurge now bases flights s)))) = 1
            \<and> filter (\<lambda>a. id_a a = airliftId k) (fst (analyzeFlightsForSurge now bases flights s)) = [])"
proof -
  from reachable_inv [OF assms] have a: "alerts_inv s" and h: "history_inv s" by simp_all
  have a': "alerts_inv (snd (analyzeFlightsForSurge now bases flights s))"
    by (rule analyze_inv(2) [OF h a])
  have inv: "distinct (map fst (activeSurges s))
       \<and> list_all alert_key_ok (activeSurges s)
       \<and> distinct (map (\<lambda>a. (type_a a, id_t (theater a))) (getActiveSurges s))
       \<and> length (filter (\<lambda>a. (type_a a, id_t (theater a)) = (ty, k)) (getActiveSurges s)) \<le> 1
       \<and> alerts_inv (cleanupOldHistory now s)
       \<and> alerts_inv (snd (analyzeFlightsForSurge now bases flights s))
       \<and> length (filter (\<lambda>a. (type_a a, id_t (theater a)) = (ty, k))
            (getActiveSurges (snd (analyzeFlightsForSurge now bases flights s)))) \<le> 1"
    using a a' cleanup_alerts_inv [OF a, of now]
      alerts_inv_pairs [OF a] distinct_map_filter_le1 [OF alerts_inv_pairs [OF a], of "(ty, k)"]
      distinct_map_filter_le1 [OF alerts_inv_pairs [OF a'], of "(ty, k)"]
    by (simp add: alerts_inv_def)
  have upd: "filter (\<lambda>a. (type_a a, id_t (theater a)) = (AirliftSurge, k))
                (getActiveSurges (snd (analyzeFlightsForSurge now bases flights s)))
               = [existing\<lparr>currentCount := transportCount_c (tallyFlights bases fl),
                            surgeMultiple := real (transportCount_c (tallyFlights bases fl))
                              / transport (calculateBaseline now
                                  (snd (analyzeFlightsForSurge now bases flights s)) k),
                            aircraftTypes := aircraftTypes_c (tallyFlights bases fl),
                            nearbyBases := nearbyBasesSet (tallyFlights bases fl),
                            lastUpdated := now\<rparr>]
            \<and> length (filter (\<lambda>e. fst e = airliftId k)
                  (activeSurges (snd (analyzeFlightsForSurge now bases flights s)))) = 1
            \<and> filter (\<lambda>a. id_a a = airliftId k) (fst (analyzeFlightsForSurge now bases flights s)) = []"
    if g: "(k, fl) \<in> set (groupFlights bases flights)"
      and e: "map_of (activeSurges (cleanupOldHistory now s)) (airliftId k) = Some existing"
      and d1: "real (transportCount_c (tallyFlights bases fl))
              \<ge> transport (calculateBaseline now (snd (analyzeFlightsForSurge now bases flights s)) k) * 2"
      and d2: "transportCount_c (tallyFlights bases fl) \<ge> 5"
    for existing
  proof -
    from groupFlights_keys [of bases flights] g
    obtain th where th: "find (\<lambda>t. id_t t = k) THEATERS = Some th" by auto
    note core = analyze_theater_core [OF g th, of now s]
    have m: "map_of (activeSurges (snd (analyzeFlightsForSurge now bases flights s))) (airliftId k)
        = Some (existing\<lparr>currentCount := transportCount_c (tallyFlights bases fl),
                            surgeMultiple := real (transportCount_c (tallyFlights bases fl))
                              / transport (calculateBaseline now
                                  (snd (analyzeFlightsForSurge now bases flights s)) k),
                            aircraftTypes := aircraftTypes_c (tallyFlights bases fl),
                            nearbyBases := nearbyBasesSet (tallyFlights bases fl),
                            lastUpdated := now\<rparr>)"
      using e d1 d2 by (simp add: core(2))
    have r: "filter (\<lambda>a. id_a a = airliftId k) (fst (analyzeFlightsForSurge now bases flights s)) = []"
      using e by (simp add: core(3))
    from alerts_inv_airlift_entry [OF a' m] r show ?thesis by simp
  qed
  from inv upd show ?thesis by blast
qed

theorem one_alert_per_type_and_theater_witness:
  "reachable (snd (analyzeFlightsForSurge 1000 [] ex_transports (initState 0))) \<and>
   map_of (activeSurges (snd (analyzeFlightsForSurge 1000 [] ex_transports (initState 0))))
     (airliftId ''middle-east'') \<noteq> None \<and>
   distinct (map fst (activeSurges (snd (analyzeFlightsForSurge 1000 [] ex_transports (initState 0))))) \<and>
   length (filter (\<lambda>a. (type_a a, id_t (theater a)) = (AirliftSurge, ''middle-east''))
     (getActiveSurges (snd (analyzeFlightsForSurge 2000 [] ex_transports
        (snd (analyzeFlightsForSurge 1000 [] ex_transports (initState 0))))))) \<le> 1 \<and>
   (''middle-east'', ex_transports) \<in> set (groupFlights [] ex_transports) \<and>
   map_of (activeSurges (cleanupOldHistory 2000
       (snd (analyzeFlightsForSurge 1000 [] ex_transports (initState 0))))) (airliftId ''middle-east'')
     = Some (ex_alert (airliftId ''middle-east'') AirliftSurge 1000) \<and>
   filter (\<lambda>a. (type_a a, id_t (theater a)) = (AirliftSurge, ''middle-east''))
     (getActiveSurges (snd (analyzeFlightsForSurge 2000 [] ex_transports
        (snd (analyzeFlightsForSurge 1000 [] ex_transports (initState 0))))))
     = [(ex_alert (airliftId ''middle-east'') AirliftSurge 1000)\<lparr>lastUpdated := 2000\<rparr>] \<and>
   length (filter (\<lambda>e. fst e = airliftId ''middle-east'')
     (activeSurges (snd (analyzeFlightsForSurge 2000 [] ex_transports
        (snd (analyzeFlightsForSurge 1000 [] ex_transports (initState 0))))))) = 1 \<and>
   filter (\<lambda>a. id_a a = airliftId ''middle-east'')
     (fst (analyzeFlightsForSurge 2000 [] ex_transports
        (snd (analyzeFlightsForSurge 1000 [] ex_transports (initState 0))))) = []"
proof -
  note t = one_alert_per_type_and_theater [OF ex_reachable, where ty = AirliftSurge
      and k = "''middle-east''" and now = 2000 and bases = "[]" and flights = ex_transports
      and fl = ex_transports]
  have pre: "map_of (activeSurges (cleanupOldHistory 2000
       (snd (analyzeFlightsForSurge 1000 [] ex_transports (initState 0))))) (airliftId ''middle-east'')
     = Some (ex_alert (airliftId ''middle-east'') AirliftSurge 1000)"
    by (simp only: ex_skip2 ex_run1_alert_eq)
  have det: "real (transportCount_c (tallyFlights [] ex_transports))
      \<ge> transport (calculateBaseline 2000 (snd (analyzeFlightsForSurge 2000 [] ex_transports
        (snd (analyzeFlightsForSurge 1000 [] ex_transports (initState 0))))) ''middle-east'') * 2"
    "transportCount_c (tallyFlights [] ex_transports) \<ge> 5"
    by (simp_all add: ex_baseline2 ex_tally)
  from t have inv: "distinct (map fst (activeSurges (snd (analyzeFlightsForSurge 1000 [] ex_transports (initState 0))))) \<and>
   length (filter (\<lambda>a. (type_a a, id_t (theater a)) = (AirliftSurge, ''middle-east''))
     (getActiveSurges (snd (analyzeFlightsForSurge 2000 [] ex_transports
        (snd (analyzeFlightsForSurge 1000 [] ex_transports (initState 0))))))) \<le> 1"
    by blast
  from t ex_member(1) pre det
  have "filter (\<lambda>a. (type_a a, id_t (theater a)) = (AirliftSurge, ''middle-east''))
     (getActiveSurges (snd (analyzeFlightsForSurge 2000 [] ex_transports
        (snd (analyzeFlightsForSurge 1000 [] ex_transports (initState 0))))))
     = [(ex_alert (airliftId ''middle-east'') AirliftSurge 1000)
          \<lparr>currentCount := transportCount_c (tallyFlights [] ex_transports),
           surgeMultiple := real (transportCount_c (tallyFlights [] ex_transports))
              / transport (calculateBaseline 2000 (snd (analyzeFlightsForSurge 2000 [] ex_transports
                  (snd (analyzeFlightsForSurge 1000 [] ex_transports (initState 0))))) ''middle-east''),
           aircraftTypes := aircraftTypes_c (tallyFlights [] ex_transports),
           nearbyBases := nearbyBasesSet (tallyFlights [] ex_transports),
           lastUpdated := 2000\<rparr>] \<and>
   length (filter (\<lambda>e. fst e = airliftId ''middle-east'')
     (activeSurges (snd (analyzeFlightsForSurge 2000 [] ex_transports
        (snd (analyzeFlightsForSurge 1000 [] ex_transports (initState 0))))))) = 1 \<and>
   filter (\<lambda>a. id_a a = airliftId ''middle-east'')
     (fst (analyzeFlightsForSurge 2000 [] ex_transports
        (snd (analyzeFlightsForSurge 1000 [] ex_transports (initState 0))))) = []"
    by blast
  then have upd: "filter (\<lambda>a. (type_a a, id_t (theater a)) = (AirliftSurge, ''middle-east''))
     (getActiveSurges (snd (analyzeFlightsForSurge 2000 [] ex_transports
        (snd (analyzeFlightsForSurge 1000 [] ex_transports (initState 0))))))
     = [(ex_alert (airliftId ''middle-east'') AirliftSurge 1000)\<lparr>lastUpdated := 2000\<rparr>] \<and>
   length (filter (\<lambda>e. fst e = airliftId ''middle-east'')
     (activeSurges (snd (analyzeFlightsForSurge 2000 [] ex_transports
        (snd (analyzeFlightsForSurge 1000 [] ex_transports (initState 0))))))) = 1 \<and>
   filter (\<lambda>a. id_a a = airliftId ''middle-east'')
     (fst (analyzeFlightsForSurge 2000 [] ex_transports
        (snd (analyzeFlightsForSurge 1000 [] ex_transports (initState 0))))) = []"
    unfolding ex_baseline2 ex_tally by (simp add: ex_alert_def)
  from inv upd pre ex_member(1) ex_reachable ex_run1_alert show ?thesis by blast
qed

text \<open>
  Claim C8.  In every reachable state each theater's history has at most 200 entries.  An
  analysis call leaves the history of a theater without activity as cleanup left it, and
  appends to the history of a theater with activity one snapshot stamped with the current
  time, dropping the oldest entry when that makes 201.
\<close>

theorem history_capped:
  assumes "reachable s"
  shows "length (getTheaterActivity s k) \<le> 200
       \<and> (case map_of (groupFlights bases flights) k of
            None \<Rightarrow>
              getTheaterActivity (snd (analyzeFlightsForSurge now bases flights s)) k =
                getTheaterActivity (cleanupOldHistory now s) k
          | Some fl \<Rightarrow>
              (let activity = mkActivity now k fl (tallyFlights bases fl);
                   h = getTheaterActivity (cleanupOldHistory now s) k @ [activity]
               in getTheaterActivity (snd (analyzeFlightsForSurge now bases flights s)) k =
                    (if length h > 200 then tl h else h)
                  \<and> last (getTheaterActivity (snd (analyzeFlightsForSurge now bases flights s)) k)
                      = activity
                  \<and> timestamp activity = now))
       \<and> length (getTheaterActivity (snd (analyzeFlightsForSurge now bases flights s)) k) \<le> 200"
proof -
  have len: "length (getTheaterActivity t k) \<le> 200" if "reachable t" for t
    using reachable_inv [OF that] by (simp add: history_inv_def getTheaterActivity_def getHistory_length)
  have "reachable (snd (analyzeFlightsForSurge now bases flights s))"
    by (rule reachable.step [OF assms])
  from len [OF this] len [OF assms] show ?thesis
    by (simp add: analyze_history last_pushHistory split: option.splits)
       (simp add: pushHistory_def mkActivity_def Let_def)
qed

theorem history_capped_witness:
  "reachable (snd (analyzeFlightsForSurge 1000 [] ex_transports (initState 0))) \<and>
   length (getTheaterActivity (snd (analyzeFlightsForSurge 1000 [] ex_transports (initState 0)))
     ''middle-east'') \<le> 200 \<and>
   getTheaterActivity (snd (analyzeFlightsForSurge 2000 [] ex_transports
        (snd (analyzeFlightsForSurge 1000 [] ex_transports (initState 0))))) ''middle-east''
     = [mkActivity 1000 ''middle-east'' ex_transports (tallyFlights [] ex_transports),
        mkActivity 2000 ''middle-east'' ex_transports (tallyFlights [] ex_transports)]"
proof -
  note t = history_capped [OF ex_reachable, where k = "''middle-east''" and bases = "[]"
      and flights = ex_transports and now = 2000]
  from t have a: "length (getTheaterActivity (snd (analyzeFlightsForSurge 1000 [] ex_transports (initState 0)))
     ''middle-east'') \<le> 200" by blast
  from t have "case map_of (groupFlights [] ex_transports) ''middle-east'' of
            None \<Rightarrow>
              getTheaterActivity (snd (analyzeFlightsForSurge 2000 [] ex_transports
                (snd (analyzeFlightsForSurge 1000 [] ex_transports (initState 0))))) ''middle-east'' =
                getTheaterActivity (cleanupOldHistory 2000
                  (snd (analyzeFlightsForSurge 1000 [] ex_transports (initState 0)))) ''middle-east''
          | Some fl \<Rightarrow>
              (let activity = mkActivity 2000 ''middle-east'' fl (tallyFlights [] fl);
                   h = getTheaterActivity (cleanupOldHistory 2000
                         (snd (analyzeFlightsForSurge 1000 [] ex_transports (initState 0)))) ''middle-east''
                       @ [activity]
               in getTheaterActivity (snd (analyzeFlightsForSurge 2000 [] ex_transports
                    (snd (analyzeFlightsForSurge 1000 [] ex_transports (initState 0))))) ''middle-east'' =
                    (if length h > 200 then tl h else h)
                  \<and> last (getTheaterActivity (snd (analyzeFlightsForSurge 2000 [] ex_transports
                    (snd (analyzeFlightsForSurge 1000 [] ex_transports (initState 0))))) ''middle-east'')
                      = activity
                  \<and> timestamp activity = 2000)"
    by blast
  then have b: "getTheaterActivity (snd (analyzeFlightsForSurge 2000 [] ex_transports
        (snd (analyzeFlightsForSurge 1000 [] ex_transports (initState 0))))) ''middle-east''
     = [mkActivity 1000 ''middle-east'' ex_transports (tallyFlights [] ex_transports),
        mkActivity 2000 ''middle-east'' ex_transports (tallyFlights [] ex_transports)]"
    unfolding ex_groups ex_skip2 ex_history Let_def by simp
  from a b ex_reachable show ?thesis by simp
qed

section \<open>Signal formatting\<close>

text \<open>
  Claim C9.  The severity of the signal is critical from a surge multiple of 4, high from 3,
  medium below; the confidence is min(0.95, 0.6 + (multiple - 2) * 0.1), which reaches the
  cap at 5.5.  A multiple of 2 gives medium and 0.6, a multiple of 4 gives critical and 0.8.
\<close>

theorem surgeAlertToSignal_severity_confidence:
  "severity (surgeAlertToSignal surge) =
     (if surgeMultiple surge < 3 then medium else if surgeMultiple surge < 4 then high else critical)
   \<and> confidence (surgeAlertToSignal surge) = min 0.95 (0.6 + (surgeMultiple surge - 2) * 0.1)
   \<and> confidence (surgeAlertToSignal surge) =
     (if surgeMultiple surge \<ge> 5.5 then 0.95 else 0.6 + (surgeMultiple surge - 2) / 10)
   \<and> severity (surgeAlertToSignal (surge\<lparr>surgeMultiple := 2\<rparr>)) = medium
   \<and> confidence (surgeAlertToSignal (surge\<lparr>surgeMultiple := 2\<rparr>)) = 0.6
   \<and> severity (surgeAlertToSignal (surge\<lparr>surgeMultiple := 4\<rparr>)) = critical
   \<and> confidence (surgeAlertToSignal (surge\<lparr>surgeMultiple := 4\<rparr>)) = 0.8"
  by (auto simp add: surgeAlertToSignal_def min_def)

end
